theory Spec2Isabelle
  imports Main
begin

section \<open>Data model\<close>

text \<open>
  The tables of \<^verbatim>\<open>orders/models.py\<close> and the user model of
  \<^verbatim>\<open>accounts/models.py\<close>. A table is the list of its rows in insertion order, a
  foreign key is the primary key of the row it points to, a nullable column is an
  \<open>option\<close>. A \<^verbatim>\<open>DecimalField(decimal_places=2)\<close> holds a whole number of
  hundredths, so a decimal \<open>v\<close> is the integer \<open>100 * v\<close>. A point in time is a
  natural number; every view receives the reading of the clock as its argument
  \<open>now\<close> and uses it wherever the source calls \<^verbatim>\<open>timezone.now()\<close>. The columns \<^verbatim>\<open>last_activity\<close> and \<^verbatim>\<open>location_description\<close> of
  \<^verbatim>\<open>CourierStatus\<close>, which no operation below reads, are left out.
\<close>

datatype user_role = CUSTOMER | COURIER | ADMIN

datatype order_status = CREATED | ASSIGNED | PICKED_UP | IN_TRANSIT | DELIVERED | CANCELLED

type_synonym pk = nat
type_synonym timestamp = nat
type_synonym decimal2 = int

record user =
  uid :: pk
  role :: user_role

record order =
  oid :: pk
  customer :: pk
  assigned_courier :: "pk option"
  pickup_address :: string
  delivery_address :: string
  distance_km :: decimal2
  price :: decimal2
  status :: order_status
  created_at :: timestamp
  assigned_at :: "timestamp option"
  picked_up_at :: "timestamp option"
  in_transit_at :: "timestamp option"
  delivered_at :: "timestamp option"

record pricing_config =
  pcid :: pk
  base_fee :: decimal2
  per_km_rate :: decimal2
  is_active :: bool
  pc_created_at :: timestamp
  created_by :: pk

record courier_status =
  courier :: pk
  is_available :: bool
  current_orders_count :: int

record database =
  users :: "user list"
  orders :: "order list"
  pricing_configs :: "pricing_config list"
  courier_statuses :: "courier_status list"

text \<open>
  What a request can end with instead of a result: the HTTP 404 of
  \<^verbatim>\<open>get_object\<close>, the 403 of a permission class, an explicit
  \<^verbatim>\<open>Response(..., status=403)\<close> or \<^verbatim>\<open>Response(..., status=400)\<close> with its
  message, a \<^verbatim>\<open>serializers.ValidationError\<close> (raised for one field by a
  \<^verbatim>\<open>validate_<field>\<close> method, for no field by \<^verbatim>\<open>validate\<close>, or with a bare
  message), the \<^verbatim>\<open>ValueError\<close> of the service layer, and the
  \<^verbatim>\<open>DoesNotExist\<close> of a \<^verbatim>\<open>objects.get\<close> that finds no row.
\<close>

datatype error_detail = Detail string | FieldErrors "(string \<times> string) list"

datatype error =
    Http404
  | PermissionDenied
  | Response403 string
  | Response400 string
  | ValidationError error_detail
  | ValueError string
  | DoesNotExist

type_synonym 'a response = "(error + 'a) \<times> database"

section \<open>Access to the tables\<close>

text \<open>The next primary key of an auto-increment column.\<close>

definition next_pk :: "pk list \<Rightarrow> pk" where
  "next_pk ks = Suc (fold max ks 0)"

text \<open>
  \<^verbatim>\<open>order.save()\<close> on a row that was loaded from the table: the row with the same
  primary key is replaced.
\<close>

definition save_order :: "order \<Rightarrow> database \<Rightarrow> database" where
  "save_order ord db =
     db\<lparr>orders := map (\<lambda>x. if oid x = oid ord then ord else x) (orders db)\<rparr>"

text \<open>
  \<^verbatim>\<open>CourierStatus.objects.get_or_create(courier=c, defaults={'is_available': True,
  'current_orders_count': 0})\<close>: the row of the courier, appended to the table first
  when there is none.
\<close>

definition get_or_create :: "pk \<Rightarrow> database \<Rightarrow> courier_status \<times> database" where
  "get_or_create c db =
     (case find (\<lambda>r. courier r = c) (courier_statuses db) of
        Some r \<Rightarrow> (r, db)
      | None \<Rightarrow>
          (let r = \<lparr>courier = c, is_available = True, current_orders_count = 0\<rparr>
           in (r, db\<lparr>courier_statuses := courier_statuses db @ [r]\<rparr>)))"

text \<open>
  \<^verbatim>\<open>courier_status.save()\<close>. The courier is a one-to-one key of the table, so the
  row written is the row of that courier.
\<close>

definition save_courier_status :: "courier_status \<Rightarrow> database \<Rightarrow> database" where
  "save_courier_status cs db =
     db\<lparr>courier_statuses :=
          map (\<lambda>r. if courier r = courier cs then cs else r) (courier_statuses db)\<rparr>"

text \<open>\<^verbatim>\<open>OrderViewSet._update_courier_workload\<close>.\<close>

definition update_courier_workload :: "pk \<Rightarrow> int \<Rightarrow> database \<Rightarrow> database" where
  "update_courier_workload c change db =
     (case get_or_create c db of
        (cs, db1) \<Rightarrow>
          save_courier_status
            (cs\<lparr>current_orders_count := max 0 (current_orders_count cs + change)\<rparr>) db1)"

text \<open>
  \<^verbatim>\<open>OrderViewSet.get_queryset\<close> and the \<^verbatim>\<open>get_object\<close> built on it: an admin
  sees every order, a courier the orders assigned to them and the ones still
  \<open>CREATED\<close>, a customer their own.
\<close>

definition get_queryset :: "user \<Rightarrow> database \<Rightarrow> order list" where
  "get_queryset u db =
     (case role u of
        ADMIN \<Rightarrow> orders db
      | COURIER \<Rightarrow>
          filter (\<lambda>x. assigned_courier x = Some (uid u) \<or> status x = CREATED) (orders db)
      | CUSTOMER \<Rightarrow> filter (\<lambda>x. customer x = uid u) (orders db))"

definition get_object :: "user \<Rightarrow> pk \<Rightarrow> database \<Rightarrow> order option" where
  "get_object u k db = find (\<lambda>x. oid x = k) (get_queryset u db)"

text \<open>
  \<^verbatim>\<open>OrderViewSet.get_permissions\<close> with the permission classes of
  \<^verbatim>\<open>accounts/permissions.py\<close>. The requesting user is an authenticated one, so
  \<^verbatim>\<open>IsAuthenticated\<close> always passes.
\<close>

datatype action =
    Create | Destroy | Update_status | Assign_courier | Reassign_courier | Accept_order

definition get_permissions :: "action \<Rightarrow> user \<Rightarrow> bool" where
  "get_permissions a u =
     (if a = Create then role u = CUSTOMER
      else if a = Assign_courier \<or> a = Destroy then role u = ADMIN
      else True)"

section \<open>The order status state machine\<close>

definition status_name :: "order_status \<Rightarrow> string" where
  "status_name s =
     (case s of
        CREATED \<Rightarrow> ''CREATED'' | ASSIGNED \<Rightarrow> ''ASSIGNED'' | PICKED_UP \<Rightarrow> ''PICKED_UP''
      | IN_TRANSIT \<Rightarrow> ''IN_TRANSIT'' | DELIVERED \<Rightarrow> ''DELIVERED''
      | CANCELLED \<Rightarrow> ''CANCELLED'')"

text \<open>The table \<^verbatim>\<open>valid_transitions\<close> of \<^verbatim>\<open>validate_status\<close>.\<close>

fun valid_transitions :: "order_status \<Rightarrow> order_status list" where
  "valid_transitions CREATED = [ASSIGNED, CANCELLED]"
| "valid_transitions ASSIGNED = [PICKED_UP, CANCELLED]"
| "valid_transitions PICKED_UP = [IN_TRANSIT, CANCELLED]"
| "valid_transitions IN_TRANSIT = [DELIVERED, CANCELLED]"
| "valid_transitions DELIVERED = []"
| "valid_transitions CANCELLED = []"

text \<open>
  \<^verbatim>\<open>OrderStatusUpdateSerializer.validate_status\<close>; the serializer's instance is
  \<open>None\<close> when it was built without one.
\<close>

definition invalid_transition :: "order_status \<Rightarrow> order_status \<Rightarrow> error" where
  "invalid_transition cur v =
     ValidationError (FieldErrors
       [(''status'', ''Cannot transition from '' @ status_name cur @ '' to '' @ status_name v)])"

definition validate_status :: "order option \<Rightarrow> order_status \<Rightarrow> error + order_status" where
  "validate_status inst v =
     (case inst of
        None \<Rightarrow> Inr v
      | Some ord \<Rightarrow>
          if v \<notin> set (valid_transitions (status ord))
          then Inl (invalid_transition (status ord) v)
          else Inr v)"

text \<open>
  \<^verbatim>\<open>OrderStatusUpdateSerializer.update\<close>, up to the \<^verbatim>\<open>instance.save()\<close>, which
  the view's model does with \<open>save_order\<close>.
\<close>

definition OrderStatusUpdateSerializer_update ::
  "order \<Rightarrow> order_status \<Rightarrow> timestamp \<Rightarrow> order" where
  "OrderStatusUpdateSerializer_update inst new_status now =
     (let i = inst\<lparr>status := new_status\<rparr> in
      if new_status = ASSIGNED then i\<lparr>assigned_at := Some now\<rparr>
      else if new_status = PICKED_UP then i\<lparr>picked_up_at := Some now\<rparr>
      else if new_status = IN_TRANSIT then i\<lparr>in_transit_at := Some now\<rparr>
      else if new_status = DELIVERED then i\<lparr>delivered_at := Some now\<rparr>
      else i)"

text \<open>
  \<^verbatim>\<open>OrderViewSet.update_status\<close>. The request carries a status, one of the six
  choices of the model field. Nothing is written before the serializer has accepted the
  transition, so every refusal returns the database as it was.
\<close>

definition update_status ::
  "user \<Rightarrow> pk \<Rightarrow> order_status \<Rightarrow> timestamp \<Rightarrow> database \<Rightarrow> order response" where
  "update_status u k requested now db =
     (if \<not> get_permissions Update_status u then (Inl PermissionDenied, db)
      else (case get_object u k db of
        None \<Rightarrow> (Inl Http404, db)
      | Some ord \<Rightarrow>
          if role u = COURIER \<and> assigned_courier ord \<noteq> Some (uid u)
          then (Inl (Response403 ''You can only update status of your assigned orders''), db)
          else (case validate_status (Some ord) requested of
            Inl e \<Rightarrow> (Inl e, db)
          | Inr v \<Rightarrow>
              (let updated_order = OrderStatusUpdateSerializer_update ord v now;
                   db1 = save_order updated_order db
               in (Inr updated_order,
                   (if (status updated_order = DELIVERED \<or> status updated_order = CANCELLED)
                       \<and> assigned_courier updated_order \<noteq> None
                    then update_courier_workload (the (assigned_courier updated_order)) (- 1) db1
                    else db1))))))"

text \<open>
  The request is let through to the serializer: the order is in the user's queryset, and
  a courier is the order's assigned courier.
\<close>

definition may_update_status :: "user \<Rightarrow> order \<Rightarrow> database \<Rightarrow> bool" where
  "may_update_status u ord db \<longleftrightarrow>
     get_object u (oid ord) db = Some ord \<and>
     (role u = COURIER \<longrightarrow> assigned_courier ord = Some (uid u))"

definition stored_order :: "pk \<Rightarrow> database \<Rightarrow> order option" where
  "stored_order k db = find (\<lambda>x. oid x = k) (orders db)"

section \<open>The courier assignment engine\<close>

text \<open>
  \<^verbatim>\<open>OrderViewSet._try_auto_assignment\<close>. The queryset keeps the rows with
  \<^verbatim>\<open>is_available=True\<close> whose courier is a user of role \<open>COURIER\<close>, ordered by
  \<^verbatim>\<open>current_orders_count\<close>. The source names no second key, so the order among
  equal counts is the store's; here it is the order of the table (the sort is stable).
\<close>

definition eligible :: "database \<Rightarrow> courier_status \<Rightarrow> bool" where
  "eligible db r \<longleftrightarrow>
     is_available r \<and> (\<exists>x \<in> set (users db). uid x = courier r \<and> role x = COURIER)"

definition available_couriers :: "database \<Rightarrow> courier_status list" where
  "available_couriers db =
     sort_key current_orders_count (filter (eligible db) (courier_statuses db))"

definition try_auto_assignment :: "order \<Rightarrow> timestamp \<Rightarrow> database \<Rightarrow> order \<times> database" where
  "try_auto_assignment ord now db =
     (case available_couriers db of
        [] \<Rightarrow> (ord, db)
      | cs # _ \<Rightarrow>
          (let ord' = ord\<lparr>assigned_courier := Some (courier cs), status := ASSIGNED,
                          assigned_at := Some now\<rparr>
           in (ord', update_courier_workload (courier cs) 1 (save_order ord' db))))"

text \<open>\<^verbatim>\<open>CourierAssignmentSerializer.validate_courier_id\<close>.\<close>

definition courier_id_error :: "string \<Rightarrow> error" where
  "courier_id_error msg = ValidationError (FieldErrors [(''courier_id'', msg)])"

definition validate_courier_id :: "pk \<Rightarrow> database \<Rightarrow> pk response" where
  "validate_courier_id v db =
     (case find (\<lambda>x. uid x = v \<and> role x = COURIER) (users db) of
        None \<Rightarrow> (Inl (courier_id_error ''Courier not found''), db)
      | Some c \<Rightarrow>
          (case get_or_create (uid c) db of
             (cs, db1) \<Rightarrow>
               if \<not> is_available cs
               then (Inl (courier_id_error ''Courier is not available''), db1)
               else (Inr v, db1)))"

text \<open>\<^verbatim>\<open>OrderViewSet.assign_courier\<close>.\<close>

definition assign_courier ::
  "user \<Rightarrow> pk \<Rightarrow> pk \<Rightarrow> timestamp \<Rightarrow> database \<Rightarrow> order response" where
  "assign_courier u k courier_id now db =
     (if \<not> get_permissions Assign_courier u then (Inl PermissionDenied, db)
      else (case get_object u k db of
        None \<Rightarrow> (Inl Http404, db)
      | Some ord \<Rightarrow>
          if status ord \<noteq> CREATED \<and> status ord \<noteq> ASSIGNED
          then (Inl (Response400
                  ''Can only assign couriers to orders with CREATED or ASSIGNED status''), db)
          else (case validate_courier_id courier_id db of
            (Inl e, db1) \<Rightarrow> (Inl e, db1)
          | (Inr cid, db1) \<Rightarrow>
              (case find (\<lambda>x. uid x = cid) (users db1) of
                 None \<Rightarrow> (Inl DoesNotExist, db1)
               | Some c \<Rightarrow>
                   (let db2 = (if assigned_courier ord \<noteq> None \<and>
                                  assigned_courier ord \<noteq> Some (uid c)
                               then update_courier_workload (the (assigned_courier ord)) (- 1) db1
                               else db1);
                        old_courier = assigned_courier ord;
                        ord' = ord\<lparr>assigned_courier := Some (uid c), status := ASSIGNED,
                                   assigned_at := Some now\<rparr>;
                        db3 = save_order ord' db2
                    in (Inr ord',
                        (if old_courier \<noteq> Some (uid c)
                         then update_courier_workload (uid c) 1 db3
                         else db3)))))))"

text \<open>\<^verbatim>\<open>OrderViewSet.reassign_courier\<close>.\<close>

definition reassign_courier ::
  "user \<Rightarrow> pk \<Rightarrow> pk \<Rightarrow> timestamp \<Rightarrow> database \<Rightarrow> order response" where
  "reassign_courier u k courier_id now db =
     (if \<not> get_permissions Reassign_courier u then (Inl PermissionDenied, db)
      else (case get_object u k db of
        None \<Rightarrow> (Inl Http404, db)
      | Some ord \<Rightarrow>
          if status ord \<noteq> ASSIGNED \<and> status ord \<noteq> PICKED_UP
          then (Inl (Response400
                  ''Can only reassign orders with ASSIGNED or PICKED_UP status''), db)
          else if assigned_courier ord = None
          then (Inl (Response400 ''Order is not currently assigned to any courier''), db)
          else (case validate_courier_id courier_id db of
            (Inl e, db1) \<Rightarrow> (Inl e, db1)
          | (Inr cid, db1) \<Rightarrow>
              (case find (\<lambda>x. uid x = cid) (users db1) of
                 None \<Rightarrow> (Inl DoesNotExist, db1)
               | Some new_courier \<Rightarrow>
                   (let old_courier = the (assigned_courier ord) in
                    if old_courier = uid new_courier
                    then (Inl (Response400 ''Order is already assigned to this courier''), db1)
                    else
                      (let db2 = update_courier_workload old_courier (- 1) db1;
                           db3 = update_courier_workload (uid new_courier) 1 db2;
                           ord1 = ord\<lparr>assigned_courier := Some (uid new_courier),
                                      assigned_at := Some now\<rparr>;
                           ord2 = (if status ord1 = PICKED_UP
                                   then ord1\<lparr>status := ASSIGNED, picked_up_at := None\<rparr>
                                   else ord1)
                       in (Inr ord2, save_order ord2 db3)))))))"

text \<open>\<^verbatim>\<open>OrderViewSet.accept_order\<close>.\<close>

definition accept_order :: "user \<Rightarrow> pk \<Rightarrow> timestamp \<Rightarrow> database \<Rightarrow> order response" where
  "accept_order u k now db =
     (if \<not> get_permissions Accept_order u then (Inl PermissionDenied, db)
      else if role u \<noteq> COURIER
      then (Inl (Response403 ''Only couriers can accept orders''), db)
      else (case get_object u k db of
        None \<Rightarrow> (Inl Http404, db)
      | Some ord \<Rightarrow>
          if status ord \<noteq> CREATED
          then (Inl (Response400 ''Order is not available for acceptance''), db)
          else (case get_or_create (uid u) db of
            (cs, db1) \<Rightarrow>
              if \<not> is_available cs
              then (Inl (Response400 ''You are not available for new orders''), db1)
              else
                (let ord' = ord\<lparr>assigned_courier := Some (uid u), status := ASSIGNED,
                                assigned_at := Some now\<rparr>
                 in (Inr ord', update_courier_workload (uid u) 1 (save_order ord' db1))))))"

text \<open>
  \<^verbatim>\<open>CourierStatusViewSet.update_availability\<close>; the request may or may not carry
  \<^verbatim>\<open>is_available\<close>.
\<close>

definition update_availability ::
  "user \<Rightarrow> bool option \<Rightarrow> database \<Rightarrow> courier_status response" where
  "update_availability u avail db =
     (if role u \<noteq> COURIER
      then (Inl (Response403 ''Only couriers can update their availability''), db)
      else (case get_or_create (uid u) db of
        (cs, db1) \<Rightarrow>
          (let cs' = (case avail of None \<Rightarrow> cs | Some a \<Rightarrow> cs\<lparr>is_available := a\<rparr>)
           in (Inr cs', save_courier_status cs' db1))))"

section \<open>Pricing and order creation\<close>

text \<open>
  \<^verbatim>\<open>Decimal.quantize(Decimal('0.01'))\<close> of a value with four decimal places, given
  in ten-thousandths; the result is in hundredths. No rounding mode is passed and the
  repository never changes the decimal context, so the mode is that of Python's default
  context, \<^verbatim>\<open>ROUND_HALF_EVEN\<close>: a value halfway between two hundredths goes to the
  one whose last digit is even. For values that fit the decimal columns the 28 digits of
  that context keep the sum and the product below exact.
\<close>

definition quantize :: "int \<Rightarrow> decimal2" where
  "quantize x =
     (let q = x div 100; r = x mod 100 in
      if r < 50 then q
      else if 50 < r then q + 1
      else if even q then q else q + 1)"

text \<open>
  The expression \<^verbatim>\<open>base_fee + (distance * per_km_rate)\<close> followed by the
  \<^verbatim>\<open>quantize\<close>, as in \<^verbatim>\<open>OrderCreateSerializer.create\<close> and
  \<^verbatim>\<open>ConfigurationService.calculate_price\<close>. The product of two numbers of
  hundredths is a number of ten-thousandths.
\<close>

definition price_for :: "pricing_config \<Rightarrow> decimal2 \<Rightarrow> decimal2" where
  "price_for cfg distance = quantize (base_fee cfg * 100 + distance * per_km_rate cfg)"

text \<open>\<^verbatim>\<open>ConfigurationService.get_active_pricing_config\<close>.\<close>

definition get_active_pricing_config :: "database \<Rightarrow> pricing_config option" where
  "get_active_pricing_config db = find is_active (pricing_configs db)"

text \<open>\<^verbatim>\<open>ConfigurationService.calculate_price\<close>.\<close>

definition calculate_price ::
  "decimal2 \<Rightarrow> pricing_config option \<Rightarrow> database \<Rightarrow> error + decimal2" where
  "calculate_price distance pricing_config db =
     (case (case pricing_config of None \<Rightarrow> get_active_pricing_config db | Some c \<Rightarrow> Some c) of
        None \<Rightarrow> Inl (ValueError ''No active pricing configuration found'')
      | Some c \<Rightarrow> Inr (price_for c distance))"

text \<open>
  The body of a request that creates an order, and the checks of
  \<^verbatim>\<open>OrderCreateSerializer\<close>. \<^verbatim>\<open>str.strip\<close> and \<^verbatim>\<open>str.lower\<close> are modelled
  on ASCII text. The checks that the framework derives from the model fields (text
  present, a decimal of at most ten digits with two places) are not part of the source
  and are taken to have passed; the widths of the decimal columns are not modelled.
\<close>

record order_data =
  data_pickup_address :: string
  data_delivery_address :: string
  data_distance_km :: decimal2

definition is_space :: "char \<Rightarrow> bool" where
  "is_space c \<longleftrightarrow> c \<in> set [CHR '' '', CHR 0x09, CHR 0x0A, CHR 0x0B, CHR 0x0C, CHR 0x0D]"

definition strip :: "string \<Rightarrow> string" where
  "strip s = rev (dropWhile is_space (rev (dropWhile is_space s)))"

definition lower_char :: "char \<Rightarrow> char" where
  "lower_char c =
     (case map_of (zip ''ABCDEFGHIJKLMNOPQRSTUVWXYZ'' ''abcdefghijklmnopqrstuvwxyz'') c of
        None \<Rightarrow> c
      | Some d \<Rightarrow> d)"

definition lower :: "string \<Rightarrow> string" where
  "lower s = map lower_char s"

definition validate_distance_km :: "decimal2 \<Rightarrow> string + decimal2" where
  "validate_distance_km v = (if v \<le> 0 then Inl ''Distance must be greater than 0'' else Inr v)"

definition validate_pickup_address :: "string \<Rightarrow> string + string" where
  "validate_pickup_address v =
     (if v = [] \<or> strip v = [] then Inl ''Pickup address is required'' else Inr (strip v))"

definition validate_delivery_address :: "string \<Rightarrow> string + string" where
  "validate_delivery_address v =
     (if v = [] \<or> strip v = [] then Inl ''Delivery address is required'' else Inr (strip v))"

definition validate :: "order_data \<Rightarrow> string + order_data" where
  "validate d =
     (if lower (strip (data_pickup_address d)) = lower (strip (data_delivery_address d))
      then Inl ''Pickup and delivery addresses cannot be the same''
      else Inr d)"

text \<open>
  \<^verbatim>\<open>serializer.is_valid(raise_exception=True)\<close>: each field's check in the order
  of \<^verbatim>\<open>Meta.fields\<close>, the messages of the failing ones collected; the cross-field
  \<^verbatim>\<open>validate\<close> runs when no field failed.
\<close>

definition field_error :: "string \<Rightarrow> string + 'a \<Rightarrow> (string \<times> string) list" where
  "field_error name r = (case r of Inl msg \<Rightarrow> [(name, msg)] | Inr _ \<Rightarrow> [])"

definition is_valid :: "order_data \<Rightarrow> error + order_data" where
  "is_valid d =
     (let p = validate_pickup_address (data_pickup_address d);
          q = validate_delivery_address (data_delivery_address d);
          k = validate_distance_km (data_distance_km d)
      in (case (p, q, k) of
            (Inr p', Inr q', Inr k') \<Rightarrow>
              (case validate \<lparr>data_pickup_address = p', data_delivery_address = q',
                               data_distance_km = k'\<rparr> of
                 Inl msg \<Rightarrow> Inl (ValidationError (FieldErrors [(''non_field_errors'', msg)]))
               | Inr v \<Rightarrow> Inr v)
          | _ \<Rightarrow>
              Inl (ValidationError (FieldErrors
                (field_error ''pickup_address'' p @ field_error ''delivery_address'' q @
                 field_error ''distance_km'' k)))))"

text \<open>
  \<^verbatim>\<open>Order.objects.create\<close>: a new row with the next primary key, appended to the
  table; \<^verbatim>\<open>created_at\<close> is the time of creation and the other time stamps are null.
\<close>

definition new_order :: "pk \<Rightarrow> string \<Rightarrow> string \<Rightarrow> decimal2 \<Rightarrow> decimal2 \<Rightarrow> timestamp \<Rightarrow>
    database \<Rightarrow> order" where
  "new_order cust pickup delivery distance p now db =
     \<lparr>oid = next_pk (map oid (orders db)), customer = cust, assigned_courier = None,
      pickup_address = pickup, delivery_address = delivery, distance_km = distance,
      price = p, status = CREATED, created_at = now, assigned_at = None,
      picked_up_at = None, in_transit_at = None, delivered_at = None\<rparr>"

text \<open>\<^verbatim>\<open>OrderCreateSerializer.create\<close>, for the requesting user \<open>u\<close>.\<close>

definition OrderCreateSerializer_create ::
  "user \<Rightarrow> order_data \<Rightarrow> timestamp \<Rightarrow> database \<Rightarrow> order response" where
  "OrderCreateSerializer_create u validated_data now db =
     (case find is_active (pricing_configs db) of
        None \<Rightarrow> (Inl (ValidationError (Detail ''No active pricing configuration found'')), db)
      | Some cfg \<Rightarrow>
          (let distance = data_distance_km validated_data;
               p = quantize (base_fee cfg * 100 + distance * per_km_rate cfg);
               ord = new_order (uid u) (data_pickup_address validated_data)
                       (data_delivery_address validated_data) distance p now db
           in (Inr ord, db\<lparr>orders := orders db @ [ord]\<rparr>)))"

text \<open>\<^verbatim>\<open>OrderViewSet.create\<close>.\<close>

definition OrderViewSet_create ::
  "user \<Rightarrow> order_data \<Rightarrow> timestamp \<Rightarrow> database \<Rightarrow> order response" where
  "OrderViewSet_create u d now db =
     (if \<not> get_permissions Create u then (Inl PermissionDenied, db)
      else (case is_valid d of
        Inl e \<Rightarrow> (Inl e, db)
      | Inr v \<Rightarrow>
          (case OrderCreateSerializer_create u v now db of
             (Inl e, db1) \<Rightarrow> (Inl e, db1)
           | (Inr ord, db1) \<Rightarrow>
               (case try_auto_assignment ord now db1 of
                  (ord', db2) \<Rightarrow> (Inr ord', db2)))))"

text \<open>\<^verbatim>\<open>OrderService.create_order\<close> of \<^verbatim>\<open>orders/services.py\<close>.\<close>

definition OrderService_create_order ::
  "pk \<Rightarrow> string \<Rightarrow> string \<Rightarrow> decimal2 \<Rightarrow> timestamp \<Rightarrow> database \<Rightarrow> order response" where
  "OrderService_create_order cust pickup delivery distance now db =
     (case calculate_price distance None db of
        Inl e \<Rightarrow> (Inl e, db)
      | Inr p \<Rightarrow>
          (let ord = new_order cust pickup delivery distance p now db
           in (Inr ord, db\<lparr>orders := orders db @ [ord]\<rparr>)))"

section \<open>Pricing configuration management\<close>

text \<open>\<^verbatim>\<open>PricingConfig.objects.update(is_active=False)\<close>.\<close>

definition deactivate_all :: "database \<Rightarrow> database" where
  "deactivate_all db =
     db\<lparr>pricing_configs := map (\<lambda>c. c\<lparr>is_active := False\<rparr>) (pricing_configs db)\<rparr>"

definition save_pricing_config :: "pricing_config \<Rightarrow> database \<Rightarrow> database" where
  "save_pricing_config cfg db =
     db\<lparr>pricing_configs :=
          map (\<lambda>c. if pcid c = pcid cfg then cfg else c) (pricing_configs db)\<rparr>"

definition new_pricing_config ::
  "decimal2 \<Rightarrow> decimal2 \<Rightarrow> pk \<Rightarrow> timestamp \<Rightarrow> database \<Rightarrow> pricing_config" where
  "new_pricing_config base rate creator now db =
     \<lparr>pcid = next_pk (map pcid (pricing_configs db)), base_fee = base, per_km_rate = rate,
      is_active = True, pc_created_at = now, created_by = creator\<rparr>"

text \<open>
  \<^verbatim>\<open>PricingConfigViewSet.perform_create\<close>, behind the view set's
  \<^verbatim>\<open>permission_classes = [IsAdminUser]\<close>.
\<close>

definition perform_create ::
  "user \<Rightarrow> decimal2 \<Rightarrow> decimal2 \<Rightarrow> timestamp \<Rightarrow> database \<Rightarrow> pricing_config response" where
  "perform_create u base rate now db =
     (if role u \<noteq> ADMIN then (Inl PermissionDenied, db)
      else
        (let db1 = deactivate_all db;
             cfg = new_pricing_config base rate (uid u) now db1
         in (Inr cfg, db1\<lparr>pricing_configs := pricing_configs db1 @ [cfg]\<rparr>)))"

text \<open>\<^verbatim>\<open>PricingConfigViewSet.activate\<close>.\<close>

definition activate :: "user \<Rightarrow> pk \<Rightarrow> database \<Rightarrow> pricing_config response" where
  "activate u k db =
     (if role u \<noteq> ADMIN then (Inl PermissionDenied, db)
      else (case find (\<lambda>c. pcid c = k) (pricing_configs db) of
        None \<Rightarrow> (Inl Http404, db)
      | Some config \<Rightarrow>
          (let config' = config\<lparr>is_active := True\<rparr>
           in (Inr config', save_pricing_config config' (deactivate_all db)))))"

text \<open>
  The actions \<^verbatim>\<open>update\<close> and \<^verbatim>\<open>destroy\<close> that the view set inherits from
  \<^verbatim>\<open>viewsets.ModelViewSet\<close>: the first writes the fields that
  \<^verbatim>\<open>PricingConfigSerializer\<close> leaves writable, the second deletes the row.
\<close>

definition PricingConfigViewSet_update ::
  "user \<Rightarrow> pk \<Rightarrow> decimal2 \<Rightarrow> decimal2 \<Rightarrow> bool \<Rightarrow> database \<Rightarrow> pricing_config response" where
  "PricingConfigViewSet_update u k base rate act db =
     (if role u \<noteq> ADMIN then (Inl PermissionDenied, db)
      else (case find (\<lambda>c. pcid c = k) (pricing_configs db) of
        None \<Rightarrow> (Inl Http404, db)
      | Some config \<Rightarrow>
          (let config' = config\<lparr>base_fee := base, per_km_rate := rate, is_active := act\<rparr>
           in (Inr config', save_pricing_config config' db))))"

definition PricingConfigViewSet_destroy :: "user \<Rightarrow> pk \<Rightarrow> database \<Rightarrow> unit response" where
  "PricingConfigViewSet_destroy u k db =
     (if role u \<noteq> ADMIN then (Inl PermissionDenied, db)
      else (case find (\<lambda>c. pcid c = k) (pricing_configs db) of
        None \<Rightarrow> (Inl Http404, db)
      | Some config \<Rightarrow>
          (Inr (), db\<lparr>pricing_configs := filter (\<lambda>c. pcid c \<noteq> k) (pricing_configs db)\<rparr>)))"

text \<open>
  \<^verbatim>\<open>ConfigurationService.update_pricing_config\<close>; the bounds \<^verbatim>\<open>0.01\<close>,
  \<^verbatim>\<open>1000.00\<close> and \<^verbatim>\<open>100.00\<close> in hundredths. The audit log it writes is not
  part of the database.
\<close>

definition update_pricing_config ::
  "decimal2 \<Rightarrow> decimal2 \<Rightarrow> user \<Rightarrow> timestamp \<Rightarrow> database \<Rightarrow> pricing_config response" where
  "update_pricing_config base rate admin_user now db =
     (if base < 1 then (Inl (ValueError ''Base fee must be at least 0.01''), db)
      else if rate < 1
      then (Inl (ValueError ''Per-kilometer rate must be at least 0.01''), db)
      else if 100000 < base then (Inl (ValueError ''Base fee cannot exceed 1000.00''), db)
      else if 10000 < rate
      then (Inl (ValueError ''Per-kilometer rate cannot exceed 100.00''), db)
      else if \<not> role admin_user = ADMIN
      then (Inl (ValueError ''Only admin users can update pricing configuration''), db)
      else
        (let db1 = deactivate_all db;
             new_config = new_pricing_config base rate (uid admin_user) now db1
         in (Inr new_config, db1\<lparr>pricing_configs := pricing_configs db1 @ [new_config]\<rparr>)))"

datatype pricing_request =
    Pricing_create user decimal2 decimal2 timestamp
  | Pricing_activate user pk
  | Pricing_update user pk decimal2 decimal2 bool
  | Pricing_destroy user pk
  | Pricing_service_update decimal2 decimal2 user timestamp

fun pricing_step :: "pricing_request \<Rightarrow> database \<Rightarrow> database" where
  "pricing_step (Pricing_create u base rate now) db = snd (perform_create u base rate now db)"
| "pricing_step (Pricing_activate u k) db = snd (activate u k db)"
| "pricing_step (Pricing_update u k base rate act) db =
     snd (PricingConfigViewSet_update u k base rate act db)"
| "pricing_step (Pricing_destroy u k) db = snd (PricingConfigViewSet_destroy u k db)"
| "pricing_step (Pricing_service_update base rate u now) db =
     snd (update_pricing_config base rate u now db)"

text \<open>The database after a list of pricing requests.\<close>

definition run_pricing :: "pricing_request list \<Rightarrow> database \<Rightarrow> database" where
  "run_pricing rs db = fold pricing_step rs db"

section \<open>Runs of the core operations\<close>

text \<open>
  The requests that create, assign and move orders, and a courier's change of
  availability. The generic \<^verbatim>\<open>update\<close>, \<^verbatim>\<open>partial_update\<close> and
  \<^verbatim>\<open>destroy\<close> that the order view set inherits from \<^verbatim>\<open>ModelViewSet\<close> are
  not among them. Requests are served one after the other.
\<close>

datatype request =
    Req_create user order_data timestamp
  | Req_update_status user pk order_status timestamp
  | Req_assign_courier user pk pk timestamp
  | Req_reassign_courier user pk pk timestamp
  | Req_accept_order user pk timestamp
  | Req_update_availability user "bool option"

fun handle :: "request \<Rightarrow> database \<Rightarrow> database" where
  "handle (Req_create u d now) db = snd (OrderViewSet_create u d now db)"
| "handle (Req_update_status u k s now) db = snd (update_status u k s now db)"
| "handle (Req_assign_courier u k c now) db = snd (assign_courier u k c now db)"
| "handle (Req_reassign_courier u k c now) db = snd (reassign_courier u k c now db)"
| "handle (Req_accept_order u k now) db = snd (accept_order u k now db)"
| "handle (Req_update_availability u a) db = snd (update_availability u a db)"

text \<open>The database after a list of requests, served one after the other.\<close>

definition run :: "request list \<Rightarrow> database \<Rightarrow> database" where
  "run rs db = fold handle rs db"

text \<open>
  A database before the first order: no order is stored and every courier's counter is
  zero. Users, pricing configurations and courier status rows are arbitrary.
\<close>

definition initial :: "database \<Rightarrow> bool" where
  "initial db \<longleftrightarrow>
     orders db = [] \<and> (\<forall>r \<in> set (courier_statuses db). current_orders_count r = 0)"

text \<open>
  A courier's workload as the operations read it (the counter of the courier's row, and
  the default 0 of \<open>get_or_create\<close> when there is no row), and the number of the
  courier's orders that are under way.
\<close>

definition workload :: "pk \<Rightarrow> database \<Rightarrow> int" where
  "workload c db =
     (case find (\<lambda>r. courier r = c) (courier_statuses db) of
        None \<Rightarrow> 0
      | Some r \<Rightarrow> current_orders_count r)"

definition active :: "order_status \<Rightarrow> bool" where
  "active s \<longleftrightarrow> s = ASSIGNED \<or> s = PICKED_UP \<or> s = IN_TRANSIT"

definition active_orders :: "pk \<Rightarrow> database \<Rightarrow> order list" where
  "active_orders c db =
     filter (\<lambda>x. assigned_courier x = Some c \<and> active (status x)) (orders db)"

text \<open>
  What every operation keeps true between the two tables: primary keys of orders are
  distinct, an order that is still \<open>CREATED\<close> has no courier, every status row of a
  courier carries the courier's workload, and the workload is the number of the courier's
  orders under way.
\<close>

definition keys_distinct :: "database \<Rightarrow> bool" where
  "keys_distinct db \<longleftrightarrow> distinct (map oid (orders db))"

definition created_unassigned :: "database \<Rightarrow> bool" where
  "created_unassigned db \<longleftrightarrow>
     (\<forall>x \<in> set (orders db). status x = CREATED \<longrightarrow> assigned_courier x = None)"

definition rows_agree :: "database \<Rightarrow> bool" where
  "rows_agree db \<longleftrightarrow>
     (\<forall>r \<in> set (courier_statuses db). current_orders_count r = workload (courier r) db)"

definition workloads_match :: "database \<Rightarrow> bool" where
  "workloads_match db \<longleftrightarrow> (\<forall>c. workload c db = int (length (active_orders c db)))"

definition consistent :: "database \<Rightarrow> bool" where
  "consistent db \<longleftrightarrow>
     keys_distinct db \<and> created_unassigned db \<and> rows_agree db \<and> workloads_match db"

text \<open>A request that asks the status update for \<open>ASSIGNED\<close>.\<close>

fun asks_assigned :: "request \<Rightarrow> bool" where
  "asks_assigned (Req_update_status u k s now) = (s = ASSIGNED)"
| "asks_assigned _ = False"

text \<open>Every order past \<open>CREATED\<close> and not cancelled has a courier.\<close>

definition couriers_assigned :: "database \<Rightarrow> bool" where
  "couriers_assigned db \<longleftrightarrow>
     (\<forall>x \<in> set (orders db).
        status x \<in> {ASSIGNED, PICKED_UP, IN_TRANSIT, DELIVERED} \<longrightarrow> assigned_courier x \<noteq> None)"


section \<open>A small database for the examples\<close>

definition alice :: user where "alice = \<lparr>uid = 1, role = CUSTOMER\<rparr>"
definition bob :: user where "bob = \<lparr>uid = 2, role = COURIER\<rparr>"
definition carol :: user where "carol = \<lparr>uid = 3, role = COURIER\<rparr>"
definition dave :: user where "dave = \<lparr>uid = 4, role = ADMIN\<rparr>"

definition shop :: database where
  "shop =
     \<lparr>users = [alice, bob, carol, dave],
      orders = [],
      pricing_configs =
        [\<lparr>pcid = 1, base_fee = 5000, per_km_rate = 2000, is_active = True,
          pc_created_at = 0, created_by = 4\<rparr>],
      courier_statuses =
        [\<lparr>courier = 2, is_available = True, current_orders_count = 0\<rparr>,
         \<lparr>courier = 3, is_available = True, current_orders_count = 0\<rparr>]\<rparr>"

definition parcel :: order_data where
  "parcel = \<lparr>data_pickup_address = ''12 Mill Lane'', data_delivery_address = ''3 Quay St'',
             data_distance_km = 500\<rparr>"

definition shop1 :: database where
  "shop1 = run [Req_create alice parcel 10] shop"

definition order1 :: order where
  "order1 =
     \<lparr>oid = 1, customer = 1, assigned_courier = Some 2, pickup_address = ''12 Mill Lane'',
      delivery_address = ''3 Quay St'', distance_km = 500, price = 15000, status = ASSIGNED,
      created_at = 10, assigned_at = Some 10, picked_up_at = None, in_transit_at = None,
      delivered_at = None\<rparr>"

definition shop2 :: database where
  "shop2 = shop1\<lparr>orders := [order1\<lparr>status := PICKED_UP, picked_up_at := Some 11\<rparr>]\<rparr>"



definition closed_shop :: database where
  "closed_shop = shop\<lparr>pricing_configs := []\<rparr>"


definition idle_shop :: database where
  "idle_shop =
     shop\<lparr>courier_statuses :=
            [\<lparr>courier = 2, is_available = False, current_orders_count = 0\<rparr>,
             \<lparr>courier = 3, is_available = False, current_orders_count = 0\<rparr>]\<rparr>"

definition order0 :: order where
  "order0 =
     \<lparr>oid = 1, customer = 1, assigned_courier = None, pickup_address = ''12 Mill Lane'',
      delivery_address = ''3 Quay St'', distance_km = 500, price = 15000, status = CREATED,
      created_at = 10, assigned_at = None, picked_up_at = None, in_transit_at = None,
      delivered_at = None\<rparr>"

text \<open>
  Two orders of the same customer, the first picked up by its courier, then handed over
  to the other courier, the second delivered.
\<close>

definition day :: "request list" where
  "day =
     [Req_create alice parcel 10, Req_create alice parcel 11,
      Req_update_status bob 1 PICKED_UP 12, Req_reassign_courier dave 1 3 13,
      Req_update_status carol 2 PICKED_UP 14, Req_update_status carol 2 IN_TRANSIT 15,
      Req_update_status carol 2 DELIVERED 16]"


text \<open>An order created while no courier is available, then moved to \<open>ASSIGNED\<close> by hand.\<close>

definition by_hand :: "request list" where
  "by_hand = [Req_create alice parcel 10, Req_update_status dave 1 ASSIGNED 11]"

section \<open>Facts about the tables\<close>

lemma find_map_replace:
  assumes "f y = k"
  shows "find (\<lambda>x. f x = k) (map (\<lambda>x. if f x = k then y else x) xs) =
           map_option (\<lambda>_. y) (find (\<lambda>x. f x = k) xs)"
  using assms by (induction xs) simp_all

lemma orders_update_courier_workload [simp]:
  "orders (update_courier_workload c d db) = orders db"
  by (simp add: update_courier_workload_def get_or_create_def save_courier_status_def Let_def
      split: option.splits)

lemma get_queryset_subset: "set (get_queryset u db) \<subseteq> set (orders db)"
  by (cases "role u") (auto simp: get_queryset_def)

lemma get_object_SomeD:
  assumes "get_object u k db = Some ord"
  shows "ord \<in> set (orders db) \<and> oid ord = k"
  using assms get_queryset_subset[of u db]
  by (auto simp: get_object_def find_Some_iff)

lemma stored_order_save_order:
  assumes "ord \<in> set (orders db)" and "oid ord' = oid ord"
  shows "stored_order (oid ord) (save_order ord' db) = Some ord'"
proof -
  from assms(1) obtain z where "find (\<lambda>x. oid x = oid ord) (orders db) = Some z"
    by (cases "find (\<lambda>x. oid x = oid ord) (orders db)") (auto simp: find_None_iff)
  with assms(2) show ?thesis
    by (simp add: stored_order_def save_order_def find_map_replace)
qed

lemma stored_order_update_courier_workload [simp]:
  "stored_order k (update_courier_workload c d db) = stored_order k db"
  by (simp add: stored_order_def)

lemma oid_OrderStatusUpdateSerializer_update [simp]:
  "oid (OrderStatusUpdateSerializer_update ord v now) = oid ord"
  by (simp add: OrderStatusUpdateSerializer_update_def Let_def)

text \<open>Unfolding everything evaluates a view on a concrete database.\<close>

lemmas view_defs =
  OrderViewSet_create_def is_valid_def validate_def validate_pickup_address_def
  validate_delivery_address_def validate_distance_km_def strip_def lower_def lower_char_def
  is_space_def field_error_def OrderCreateSerializer_create_def new_order_def next_pk_def
  quantize_def try_auto_assignment_def available_couriers_def eligible_def
  update_courier_workload_def get_or_create_def save_courier_status_def save_order_def
  get_permissions_def get_object_def get_queryset_def update_status_def validate_status_def
  OrderStatusUpdateSerializer_update_def assign_courier_def reassign_courier_def
  accept_order_def update_availability_def validate_courier_id_def run_def
  stored_order_def invalid_transition_def status_name_def courier_id_error_def
  alice_def bob_def carol_def dave_def shop_def parcel_def

section \<open>The transition table\<close>

lemma valid_transitions_table:
  "v \<in> set (valid_transitions cur) \<longleftrightarrow>
     (cur, v) \<in> {(CREATED, ASSIGNED), (CREATED, CANCELLED), (ASSIGNED, PICKED_UP),
       (ASSIGNED, CANCELLED), (PICKED_UP, IN_TRANSIT), (PICKED_UP, CANCELLED),
       (IN_TRANSIT, DELIVERED), (IN_TRANSIT, CANCELLED)}"
  by (cases cur; cases v; simp)

text \<open>
  C1. A status update that reaches the serializer (the order is in the requesting user's
  queryset, and a requesting courier is the order's courier) succeeds if and only if the
  pair of the order's status and the requested status is one of the eight entries of the
  transition table. When it does not succeed, the answer is the validation error
  "Cannot transition from ... to ..." for the field \<open>status\<close>, and the database, hence
  the order's status, is the one before the request.
\<close>

theorem update_status_transition_table:
  assumes "may_update_status u ord db"
  shows "((\<exists>r. fst (update_status u (oid ord) requested now db) = Inr r) \<longleftrightarrow>
            (status ord, requested) \<in>
              {(CREATED, ASSIGNED), (CREATED, CANCELLED), (ASSIGNED, PICKED_UP),
               (ASSIGNED, CANCELLED), (PICKED_UP, IN_TRANSIT), (PICKED_UP, CANCELLED),
               (IN_TRANSIT, DELIVERED), (IN_TRANSIT, CANCELLED)}) \<and>
         ((\<forall>r. fst (update_status u (oid ord) requested now db) \<noteq> Inr r) \<longrightarrow>
            update_status u (oid ord) requested now db =
              (Inl (invalid_transition (status ord) requested), db))"
  using assms valid_transitions_table[of requested "status ord"]
  by (auto simp: may_update_status_def update_status_def get_permissions_def
      validate_status_def Let_def)

lemma shop1_eq:
  "shop1 =
     \<lparr>users = [alice, bob, carol, dave],
      orders = [order1],
      pricing_configs =
        [\<lparr>pcid = 1, base_fee = 5000, per_km_rate = 2000, is_active = True,
          pc_created_at = 0, created_by = 4\<rparr>],
      courier_statuses =
        [\<lparr>courier = 2, is_available = True, current_orders_count = 1\<rparr>,
         \<lparr>courier = 3, is_available = True, current_orders_count = 0\<rparr>]\<rparr>"
  by (simp add: shop1_def order1_def view_defs Let_def)

theorem update_status_transition_table_witness:
  "may_update_status bob order1 shop1 \<and>
   fst (update_status bob (oid order1) PICKED_UP 11 shop1) =
     Inr (order1\<lparr>status := PICKED_UP, picked_up_at := Some 11\<rparr>) \<and>
   update_status bob (oid order1) DELIVERED 11 shop1 =
     (Inl (invalid_transition ASSIGNED DELIVERED), shop1)"
proof -
  have m: "may_update_status bob order1 shop1"
    by (simp add: may_update_status_def shop1_eq order1_def get_object_def get_queryset_def
        bob_def)
  have s: "fst (update_status bob (oid order1) PICKED_UP 11 shop1) =
             Inr (order1\<lparr>status := PICKED_UP, picked_up_at := Some 11\<rparr>)"
    by (simp add: shop1_eq order1_def view_defs Let_def)
  have n: "\<forall>r. fst (update_status bob (oid order1) DELIVERED 11 shop1) \<noteq> Inr r"
    using update_status_transition_table[OF m, of DELIVERED 11]
    by (simp add: order1_def)
  with update_status_transition_table[OF m, of DELIVERED 11]
  have "update_status bob (oid order1) DELIVERED 11 shop1 =
          (Inl (invalid_transition (status order1) DELIVERED), shop1)"
    by blast
  with m s show ?thesis by (simp add: order1_def)
qed

section \<open>Time stamps of a status update\<close>

lemma update_status_InrD:
  assumes "update_status u k x now db = (Inr ord', db')"
  shows "\<exists>ord. get_object u k db = Some ord \<and> x \<in> set (valid_transitions (status ord)) \<and>
           ord' = OrderStatusUpdateSerializer_update ord x now \<and>
           orders db' = orders (save_order ord' db)"
  using assms
  by (auto simp: update_status_def validate_status_def Let_def
      split: if_splits option.splits)

text \<open>
  C4. After a successful status update to \<open>x\<close> at time \<open>now\<close>, the order returned, which
  is also the stored one, has status \<open>x\<close>; of its time stamps exactly the one that
  belongs to \<open>x\<close> is \<open>now\<close> (\<open>assigned_at\<close> for \<open>ASSIGNED\<close>, \<open>picked_up_at\<close> for
  \<open>PICKED_UP\<close>, \<open>in_transit_at\<close> for \<open>IN_TRANSIT\<close>, \<open>delivered_at\<close> for \<open>DELIVERED\<close>,
  none for \<open>CANCELLED\<close>), and every other time stamp, \<open>created_at\<close> included, has the
  value it had before.
\<close>

theorem update_status_timestamps:
  assumes "update_status u k x now db = (Inr ord', db')"
  shows "\<exists>ord. get_object u k db = Some ord \<and> stored_order k db' = Some ord' \<and>
           status ord' = x \<and>
           assigned_at ord' = (if x = ASSIGNED then Some now else assigned_at ord) \<and>
           picked_up_at ord' = (if x = PICKED_UP then Some now else picked_up_at ord) \<and>
           in_transit_at ord' = (if x = IN_TRANSIT then Some now else in_transit_at ord) \<and>
           delivered_at ord' = (if x = DELIVERED then Some now else delivered_at ord) \<and>
           created_at ord' = created_at ord"
proof -
  from update_status_InrD[OF assms] obtain ord where
    g: "get_object u k db = Some ord" and
    o: "ord' = OrderStatusUpdateSerializer_update ord x now" and
    d: "orders db' = orders (save_order ord' db)"
    by blast
  from get_object_SomeD[OF g] have m: "ord \<in> set (orders db)" and k: "oid ord = k"
    by simp_all
  have "oid ord' = oid ord"
    by (simp add: o)
  with m have "stored_order (oid ord) (save_order ord' db) = Some ord'"
    by (rule stored_order_save_order)
  with d k have s: "stored_order k db' = Some ord'"
    by (simp add: stored_order_def)
  have f: "status ord' = x \<and>
           assigned_at ord' = (if x = ASSIGNED then Some now else assigned_at ord) \<and>
           picked_up_at ord' = (if x = PICKED_UP then Some now else picked_up_at ord) \<and>
           in_transit_at ord' = (if x = IN_TRANSIT then Some now else in_transit_at ord) \<and>
           delivered_at ord' = (if x = DELIVERED then Some now else delivered_at ord) \<and>
           created_at ord' = created_at ord"
    by (simp add: o OrderStatusUpdateSerializer_update_def Let_def)
  from g s f show ?thesis by blast
qed

lemma update_status_shop1:
  "update_status bob 1 PICKED_UP 11 shop1 =
     (Inr (order1\<lparr>status := PICKED_UP, picked_up_at := Some 11\<rparr>), shop2)"
  by (simp add: shop2_def shop1_eq order1_def view_defs Let_def)

theorem update_status_timestamps_witness:
  "update_status bob 1 PICKED_UP 11 shop1 =
     (Inr (order1\<lparr>status := PICKED_UP, picked_up_at := Some 11\<rparr>), shop2) \<and>
   get_object bob 1 shop1 = Some order1 \<and>
   stored_order 1 shop2 = Some (order1\<lparr>status := PICKED_UP, picked_up_at := Some 11\<rparr>)"
proof -
  have "get_object bob 1 shop1 = Some order1"
    by (simp add: shop1_eq order1_def get_object_def get_queryset_def bob_def)
  with update_status_timestamps[OF update_status_shop1] update_status_shop1
  show ?thesis by auto
qed

section \<open>Order creation and prices\<close>

lemma fold_max_upper: "a \<le> fold max ks a \<and> (\<forall>k \<in> set ks. k \<le> fold max ks (a::nat))"
proof (induction ks arbitrary: a)
  case Nil
  show ?case by simp
next
  case (Cons k ks)
  from Cons[of "max k a"] show ?case by auto
qed

lemma next_pk_fresh: "k \<in> set ks \<Longrightarrow> k < next_pk ks"
  using fold_max_upper[of 0 ks] by (auto simp: next_pk_def)

lemma find_append_fresh:
  assumes "\<forall>x \<in> set xs. f x \<noteq> k" and "f y = k"
  shows "find (\<lambda>x. f x = k) (xs @ [y]) = Some y"
  using assms by (induction xs) simp_all

lemma OrderCreateSerializer_create_Some:
  assumes "find is_active (pricing_configs db) = Some cfg"
  shows "OrderCreateSerializer_create u v now db =
           (Inr (new_order (uid u) (data_pickup_address v) (data_delivery_address v)
                   (data_distance_km v) (price_for cfg (data_distance_km v)) now db),
            db\<lparr>orders := orders db @
              [new_order (uid u) (data_pickup_address v) (data_delivery_address v)
                   (data_distance_km v) (price_for cfg (data_distance_km v)) now db]\<rparr>)"
  using assms by (simp add: OrderCreateSerializer_create_def price_for_def Let_def)

lemma oid_new_order_fresh:
  "\<forall>x \<in> set (orders db). oid x \<noteq> oid (new_order c p q d pr now db)"
  using next_pk_fresh[of _ "map oid (orders db)"] by (fastforce simp: new_order_def)

lemma try_auto_assignment_fst:
  "price (fst (try_auto_assignment ord now db)) = price ord \<and>
   oid (fst (try_auto_assignment ord now db)) = oid ord"
  by (simp add: try_auto_assignment_def Let_def split: list.splits)

lemma stored_after_try_auto_assignment:
  assumes "stored_order (oid ord) db = Some ord"
  shows "stored_order (oid ord) (snd (try_auto_assignment ord now db)) =
           Some (fst (try_auto_assignment ord now db))"
proof (cases "available_couriers db")
  case Nil
  with assms show ?thesis by (simp add: try_auto_assignment_def)
next
  case (Cons cs rest)
  from assms have "ord \<in> set (orders db)"
    by (auto simp: stored_order_def find_Some_iff)
  then have "stored_order (oid ord)
      (save_order (ord\<lparr>assigned_courier := Some (courier cs), status := ASSIGNED,
         assigned_at := Some now\<rparr>) db) =
      Some (ord\<lparr>assigned_courier := Some (courier cs), status := ASSIGNED,
         assigned_at := Some now\<rparr>)"
    by (rule stored_order_save_order) simp
  with Cons show ?thesis by (simp add: try_auto_assignment_def Let_def)
qed

lemma is_valid_InrD:
  assumes "is_valid d = Inr v"
  shows "data_distance_km v = data_distance_km d \<and> 0 < data_distance_km d"
  using assms
  by (auto simp: is_valid_def validate_def validate_distance_km_def Let_def
      split: sum.splits if_splits)

lemma OrderViewSet_create_Some:
  assumes "get_permissions Create u" and "is_valid d = Inr v"
    and "get_active_pricing_config db = Some cfg"
  shows "\<exists>ord db'. OrderViewSet_create u d now db = (Inr ord, db') \<and>
           stored_order (oid ord) db' = Some ord \<and>
           price ord = price_for cfg (data_distance_km d)"
proof -
  let ?n = "new_order (uid u) (data_pickup_address v) (data_delivery_address v)
              (data_distance_km v) (price_for cfg (data_distance_km v)) now db"
  let ?db1 = "db\<lparr>orders := orders db @ [?n]\<rparr>"
  from assms(3) have c: "OrderCreateSerializer_create u v now db = (Inr ?n, ?db1)"
    by (simp add: get_active_pricing_config_def OrderCreateSerializer_create_Some)
  have "stored_order (oid ?n) ?db1 = Some ?n"
    using oid_new_order_fresh[of db] by (simp add: stored_order_def find_append_fresh)
  then have s: "stored_order (oid ?n) (snd (try_auto_assignment ?n now ?db1)) =
                  Some (fst (try_auto_assignment ?n now ?db1))"
    by (rule stored_after_try_auto_assignment)
  have v: "OrderViewSet_create u d now db =
             (Inr (fst (try_auto_assignment ?n now ?db1)), snd (try_auto_assignment ?n now ?db1))"
    using assms(1,2) c by (simp add: OrderViewSet_create_def split: prod.splits)
  have p: "price (fst (try_auto_assignment ?n now ?db1)) = price_for cfg (data_distance_km d)"
    using is_valid_InrD[OF assms(2)] by (simp add: try_auto_assignment_fst new_order_def)
  from s have "stored_order (oid (fst (try_auto_assignment ?n now ?db1)))
                 (snd (try_auto_assignment ?n now ?db1)) =
               Some (fst (try_auto_assignment ?n now ?db1))"
    by (simp add: try_auto_assignment_fst)
  with v p show ?thesis by blast
qed

lemma OrderViewSet_create_InrD:
  assumes "OrderViewSet_create u d now db = (Inr ord, db')"
  shows "\<exists>v cfg. get_permissions Create u \<and> is_valid d = Inr v \<and>
           get_active_pricing_config db = Some cfg"
  using assms
  by (auto simp: OrderViewSet_create_def OrderCreateSerializer_create_def
      get_active_pricing_config_def split: if_splits sum.splits option.splits prod.splits)





text \<open>
  C10. When no pricing configuration is active, \<open>OrderCreateSerializer.create\<close> raises
  the validation error "No active pricing configuration found" and the view that calls
  it fails; in both cases the database, and with it the set of stored orders, is the one
  before the request. For a customer's request that passes validation the view's error
  is that validation error.
\<close>

theorem create_without_active_config:
  assumes "\<forall>c \<in> set (pricing_configs db). \<not> is_active c"
  shows "OrderCreateSerializer_create u v now db =
           (Inl (ValidationError (Detail ''No active pricing configuration found'')), db) \<and>
         (\<exists>e. OrderViewSet_create u d now db = (Inl e, db)) \<and>
         (get_permissions Create u \<and> (\<exists>w. is_valid d = Inr w) \<longrightarrow>
            OrderViewSet_create u d now db =
              (Inl (ValidationError (Detail ''No active pricing configuration found'')), db))"
proof -
  from assms have n: "find is_active (pricing_configs db) = None"
    by (simp add: find_None_iff)
  then have c: "\<And>w. OrderCreateSerializer_create u w now db =
           (Inl (ValidationError (Detail ''No active pricing configuration found'')), db)"
    by (simp add: OrderCreateSerializer_create_def)
  then show ?thesis
    by (auto simp: OrderViewSet_create_def split: sum.splits)
qed

theorem create_without_active_config_witness:
  "get_active_pricing_config closed_shop = None \<and>
   OrderViewSet_create alice parcel 10 closed_shop =
     (Inl (ValidationError (Detail ''No active pricing configuration found'')), closed_shop) \<and>
   orders closed_shop = []"
proof -
  have a: "\<forall>c \<in> set (pricing_configs closed_shop). \<not> is_active c"
    by (simp add: closed_shop_def)
  have b: "get_permissions Create alice \<and> (\<exists>w. is_valid parcel = Inr w)"
    by (simp add: view_defs Let_def)
  from create_without_active_config[OF a, of alice parcel 10 parcel] b
  show ?thesis by (simp add: get_active_pricing_config_def closed_shop_def shop_def)
qed

text \<open>
  The service function \<open>OrderService.create_order\<close>, which no view calls, stops in the
  same situation with a \<open>ValueError\<close> of the same message.
\<close>

lemma OrderService_create_order_without_active_config:
  assumes "\<forall>c \<in> set (pricing_configs db). \<not> is_active c"
  shows "OrderService_create_order cust p q dist now db =
           (Inl (ValueError ''No active pricing configuration found''), db)"
proof -
  from assms have "find is_active (pricing_configs db) = None"
    by (simp add: find_None_iff)
  then show ?thesis
    by (simp add: OrderService_create_order_def calculate_price_def
        get_active_pricing_config_def)
qed

section \<open>Prices and later pricing configurations\<close>

lemma orders_pricing_step: "orders (pricing_step r db) = orders db"
  by (cases r)
    (simp_all add: perform_create_def activate_def PricingConfigViewSet_update_def
      PricingConfigViewSet_destroy_def update_pricing_config_def deactivate_all_def
      save_pricing_config_def Let_def split: option.splits)

lemma orders_run_pricing: "orders (run_pricing rs db) = orders db"
  unfolding run_pricing_def
  by (induction rs arbitrary: db) (simp_all add: orders_pricing_step)

text \<open>
  C9. The price that order creation computes from the pricing configuration active at
  that moment is the price of the stored order after any list of later pricing requests
  (creation of a configuration, activation, update through the view set or through the
  configuration service, deletion): none of them writes the order table.
\<close>

theorem price_frozen:
  assumes "OrderViewSet_create u d now db = (Inr ord, db1)"
  shows "\<exists>cfg. get_active_pricing_config db = Some cfg \<and>
           price ord = price_for cfg (data_distance_km d) \<and>
           orders (run_pricing rs db1) = orders db1 \<and>
           map_option price (stored_order (oid ord) (run_pricing rs db1)) =
             Some (price_for cfg (data_distance_km d))"
proof -
  from OrderViewSet_create_InrD[OF assms] obtain v cfg where
    a: "get_permissions Create u" and b: "is_valid d = Inr v" and
    c: "get_active_pricing_config db = Some cfg"
    by blast
  from OrderViewSet_create_Some[OF a b c, of now] assms
  have s: "stored_order (oid ord) db1 = Some ord" and
    p: "price ord = price_for cfg (data_distance_km d)"
    by auto
  have "stored_order (oid ord) (run_pricing rs db1) = stored_order (oid ord) db1"
    by (simp add: stored_order_def orders_run_pricing)
  with s p c show ?thesis
    by (simp add: orders_run_pricing)
qed

lemma run_pricing_shop1:
  "run_pricing [Pricing_create dave 9000 3000 20, Pricing_activate dave 1,
                Pricing_service_update 100 100 dave 21] shop1 =
     shop1\<lparr>pricing_configs :=
       [\<lparr>pcid = 1, base_fee = 5000, per_km_rate = 2000, is_active = False,
         pc_created_at = 0, created_by = 4\<rparr>,
        \<lparr>pcid = 2, base_fee = 9000, per_km_rate = 3000, is_active = False,
         pc_created_at = 20, created_by = 4\<rparr>,
        \<lparr>pcid = 3, base_fee = 100, per_km_rate = 100, is_active = True,
         pc_created_at = 21, created_by = 4\<rparr>]\<rparr>"
  by (simp add: shop1_eq)
    (simp add: run_pricing_def perform_create_def activate_def update_pricing_config_def
      deactivate_all_def save_pricing_config_def new_pricing_config_def next_pk_def dave_def
      Let_def)

theorem price_frozen_witness:
  "OrderViewSet_create alice parcel 10 shop = (Inr order1, shop1) \<and>
   map_option price (stored_order 1
     (run_pricing [Pricing_create dave 9000 3000 20, Pricing_activate dave 1,
                   Pricing_service_update 100 100 dave 21] shop1)) = Some 15000 \<and>
   map_option base_fee (get_active_pricing_config
     (run_pricing [Pricing_create dave 9000 3000 20, Pricing_activate dave 1,
                   Pricing_service_update 100 100 dave 21] shop1)) = Some 100"
proof -
  have d: "OrderViewSet_create alice parcel 10 shop = (Inr order1, shop1)"
    by (simp add: shop1_eq) (simp add: order1_def view_defs Let_def)
  have g: "get_active_pricing_config shop =
     Some \<lparr>pcid = 1, base_fee = 5000, per_km_rate = 2000, is_active = True,
           pc_created_at = 0, created_by = 4\<rparr>"
    by (simp add: get_active_pricing_config_def shop_def)
  have q: "price_for \<lparr>pcid = 1, base_fee = 5000, per_km_rate = 2000, is_active = True,
           pc_created_at = 0, created_by = 4\<rparr> (data_distance_km parcel) = 15000"
    by (simp add: price_for_def quantize_def parcel_def Let_def)
  from price_frozen[OF d, of "[Pricing_create dave 9000 3000 20, Pricing_activate dave 1,
                   Pricing_service_update 100 100 dave 21]"] g q
  have "map_option price (stored_order 1
     (run_pricing [Pricing_create dave 9000 3000 20, Pricing_activate dave 1,
                   Pricing_service_update 100 100 dave 21] shop1)) = Some 15000"
    by (auto simp: order1_def)
  moreover have "map_option base_fee (get_active_pricing_config
     (run_pricing [Pricing_create dave 9000 3000 20, Pricing_activate dave 1,
                   Pricing_service_update 100 100 dave 21] shop1)) = Some 100"
    by (subst run_pricing_shop1) (simp add: get_active_pricing_config_def)
  ultimately show ?thesis using d by simp
qed

section \<open>Automatic assignment\<close>




lemma eligible_orders_irrelevant [simp]: "eligible (db\<lparr>orders := os\<rparr>) r = eligible db r"
  by (simp add: eligible_def)



section \<open>Workload counters and orders under way\<close>

lemma find_map_replace_other:
  assumes "f y = k" and "k' \<noteq> k"
  shows "find (\<lambda>x. f x = k') (map (\<lambda>x. if f x = k then y else x) xs) =
           find (\<lambda>x. f x = k') xs"
  using assms by (induction xs) auto

lemma find_append_other:
  assumes "f y \<noteq> k"
  shows "find (\<lambda>x. f x = k) (xs @ [y]) = find (\<lambda>x. f x = k) xs"
  using assms by (induction xs) simp_all

lemma find_append_None:
  assumes "find (\<lambda>x. f x = k) xs = None" and "f y = k"
  shows "find (\<lambda>x. f x = k) (xs @ [y]) = Some y"
  using assms by (induction xs) (simp_all split: if_splits)

lemma workload_save_order [simp]: "workload c (save_order ord db) = workload c db"
  by (simp add: workload_def save_order_def)

lemma workload_orders_update [simp]: "workload c (db\<lparr>orders := os\<rparr>) = workload c db"
  by (simp add: workload_def)

lemma courier_statuses_save_order [simp]:
  "courier_statuses (save_order ord db) = courier_statuses db"
  by (simp add: save_order_def)

lemma users_save_order [simp]: "users (save_order ord db) = users db"
  by (simp add: save_order_def)

lemma orders_get_or_create [simp]: "orders (snd (get_or_create c db)) = orders db"
  by (simp add: get_or_create_def Let_def split: option.splits)

lemma users_get_or_create [simp]: "users (snd (get_or_create c db)) = users db"
  by (simp add: get_or_create_def Let_def split: option.splits)

lemma courier_get_or_create [simp]: "courier (fst (get_or_create c db)) = c"
  by (auto simp: get_or_create_def Let_def find_Some_iff split: option.splits)

lemma find_get_or_create:
  "find (\<lambda>r. courier r = c) (courier_statuses (snd (get_or_create c db))) =
     Some (fst (get_or_create c db))"
  by (simp add: get_or_create_def Let_def find_append_None split: option.splits)

lemma workload_get_or_create [simp]:
  "workload c' (snd (get_or_create c db)) = workload c' db"
proof (cases "find (\<lambda>r. courier r = c) (courier_statuses db)")
  case (Some r)
  then show ?thesis by (simp add: get_or_create_def)
next
  case None
  show ?thesis
  proof (cases "c' = c")
    case True
    with None show ?thesis
      by (simp add: get_or_create_def workload_def Let_def find_append_None)
  next
    case False
    with None show ?thesis
      by (simp add: get_or_create_def workload_def Let_def find_append_other)
  qed
qed

lemma count_get_or_create:
  "current_orders_count (fst (get_or_create c db)) = workload c db"
  by (simp add: get_or_create_def workload_def Let_def split: option.splits)

lemma rows_agree_get_or_create:
  assumes "rows_agree db"
  shows "rows_agree (snd (get_or_create c db))"
proof (cases "find (\<lambda>r. courier r = c) (courier_statuses db)")
  case (Some r)
  with assms show ?thesis by (simp add: get_or_create_def)
next
  case None
  let ?r = "\<lparr>courier = c, is_available = True, current_orders_count = 0\<rparr>"
  have g: "snd (get_or_create c db) = db\<lparr>courier_statuses := courier_statuses db @ [?r]\<rparr>"
    using None by (simp add: get_or_create_def Let_def)
  have w: "\<And>c'. workload c' (snd (get_or_create c db)) = workload c' db"
    by simp
  have z: "workload c db = 0"
    using None by (simp add: workload_def)
  show ?thesis
    unfolding rows_agree_def
  proof
    fix r assume "r \<in> set (courier_statuses (snd (get_or_create c db)))"
    with g have "r \<in> set (courier_statuses db) \<or> r = ?r"
      by auto
    then show "current_orders_count r = workload (courier r) (snd (get_or_create c db))"
    proof
      assume "r \<in> set (courier_statuses db)"
      with assms w show ?thesis by (simp add: rows_agree_def)
    next
      assume "r = ?r"
      with w z show ?thesis by simp
    qed
  qed
qed

lemma workload_save_courier_status:
  assumes "find (\<lambda>r. courier r = courier cs) (courier_statuses db) = Some r0"
  shows "workload c' (save_courier_status cs db) =
           (if c' = courier cs then current_orders_count cs else workload c' db)"
proof (cases "c' = courier cs")
  case True
  with assms show ?thesis
    by (simp add: workload_def save_courier_status_def find_map_replace)
next
  case False
  then show ?thesis
    by (simp add: workload_def save_courier_status_def find_map_replace_other)
qed

lemma rows_agree_save_courier_status:
  assumes "rows_agree db"
    and "find (\<lambda>r. courier r = courier cs) (courier_statuses db) = Some r0"
  shows "rows_agree (save_courier_status cs db)"
  unfolding rows_agree_def
proof
  fix r assume "r \<in> set (courier_statuses (save_courier_status cs db))"
  then have "r = cs \<or> (r \<in> set (courier_statuses db) \<and> courier r \<noteq> courier cs)"
    by (auto simp: save_courier_status_def split: if_splits)
  then show "current_orders_count r = workload (courier r) (save_courier_status cs db)"
  proof
    assume "r = cs"
    with assms(2) show ?thesis by (simp add: workload_save_courier_status)
  next
    assume "r \<in> set (courier_statuses db) \<and> courier r \<noteq> courier cs"
    with assms show ?thesis
      by (simp add: workload_save_courier_status rows_agree_def)
  qed
qed

lemma orders_save_courier_status [simp]:
  "orders (save_courier_status cs db) = orders db"
  by (simp add: save_courier_status_def)

lemma users_save_courier_status [simp]:
  "users (save_courier_status cs db) = users db"
  by (simp add: save_courier_status_def)

text \<open>The effect of \<open>update_courier_workload\<close> on every courier's workload.\<close>

lemma update_courier_workload_eq:
  "update_courier_workload c d db =
     save_courier_status
       ((fst (get_or_create c db))
          \<lparr>current_orders_count := max 0 (current_orders_count (fst (get_or_create c db)) + d)\<rparr>)
       (snd (get_or_create c db))"
  by (simp add: update_courier_workload_def split: prod.splits)

lemma workload_update_courier_workload:
  "workload c' (update_courier_workload c d db) =
     (if c' = c then max 0 (workload c db + d) else workload c' db)"
proof -
  let ?cs = "(fst (get_or_create c db))
          \<lparr>current_orders_count := max 0 (current_orders_count (fst (get_or_create c db)) + d)\<rparr>"
  have "find (\<lambda>r. courier r = courier ?cs) (courier_statuses (snd (get_or_create c db))) =
          Some (fst (get_or_create c db))"
    by (simp add: find_get_or_create)
  then have "workload c' (save_courier_status ?cs (snd (get_or_create c db))) =
           (if c' = courier ?cs then current_orders_count ?cs
            else workload c' (snd (get_or_create c db)))"
    by (rule workload_save_courier_status)
  then show ?thesis
    by (simp add: update_courier_workload_eq count_get_or_create)
qed

lemma rows_agree_update_courier_workload:
  assumes "rows_agree db"
  shows "rows_agree (update_courier_workload c d db)"
proof -
  let ?cs = "(fst (get_or_create c db))
          \<lparr>current_orders_count := max 0 (current_orders_count (fst (get_or_create c db)) + d)\<rparr>"
  have f: "find (\<lambda>r. courier r = courier ?cs) (courier_statuses (snd (get_or_create c db))) =
          Some (fst (get_or_create c db))"
    by (simp add: find_get_or_create)
  from assms have "rows_agree (snd (get_or_create c db))"
    by (rule rows_agree_get_or_create)
  then have "rows_agree (save_courier_status ?cs (snd (get_or_create c db)))"
    using f by (rule rows_agree_save_courier_status)
  then show ?thesis
    by (simp add: update_courier_workload_eq)
qed

lemma users_update_courier_workload [simp]:
  "users (update_courier_workload c d db) = users db"
  by (simp add: update_courier_workload_eq)

lemma rows_agree_save_order [simp]: "rows_agree (save_order ord db) = rows_agree db"
  by (simp add: rows_agree_def)

lemma rows_agree_orders_update [simp]: "rows_agree (db\<lparr>orders := os\<rparr>) = rows_agree db"
  by (simp add: rows_agree_def)

text \<open>Orders under way when one row of the order table is replaced or added.\<close>

lemma active_orders_update_courier_workload [simp]:
  "active_orders c (update_courier_workload c' d db) = active_orders c db"
  by (simp add: active_orders_def)

lemma active_orders_get_or_create [simp]:
  "active_orders c (snd (get_or_create c' db)) = active_orders c db"
  by (simp add: active_orders_def)

lemma active_orders_save_courier_status [simp]:
  "active_orders c (save_courier_status cs db) = active_orders c db"
  by (simp add: active_orders_def)

lemma length_filter_replace:
  assumes "distinct (map f xs)" and "x \<in> set xs" and "f y = f x"
  shows "int (length (filter P (map (\<lambda>z. if f z = f y then y else z) xs))) =
           int (length (filter P xs)) - (if P x then 1 else 0) + (if P y then 1 else 0)"
  using assms
proof (induction xs)
  case Nil
  then show ?case by simp
next
  case (Cons a xs)
  show ?case
  proof (cases "a = x")
    case True
    with Cons.prems have "\<forall>z \<in> set xs. f z \<noteq> f y"
      by (auto simp: image_iff)
    then have "map (\<lambda>z. if f z = f y then y else z) xs = xs"
      by (simp add: map_idI)
    with True Cons.prems(3) show ?thesis by simp
  next
    case False
    with Cons.prems have m: "x \<in> set xs" and d: "distinct (map f xs)" and "f a \<noteq> f x"
      by auto
    with Cons.prems(3) have n: "f a \<noteq> f y"
      by simp
    define k where "k = int (length (filter P xs))"
    define k' where "k' = int (length (filter P (map (\<lambda>z. if f z = f y then y else z) xs)))"
    from Cons.IH[OF d m Cons.prems(3)]
    have ih: "k' = k - (if P x then 1 else 0) + (if P y then 1 else 0)"
      by (simp add: k_def k'_def)
    have s1: "int (length (filter P (map (\<lambda>z. if f z = f y then y else z) (a # xs)))) =
                (if P a then 1 else 0) + k'"
      using n by (simp add: k'_def)
    have s2: "int (length (filter P (a # xs))) = (if P a then 1 else 0) + k"
      by (simp add: k_def)
    show ?thesis
      unfolding s1 s2 ih by simp
  qed
qed

lemma count_save_order:
  assumes "keys_distinct db" and "ord \<in> set (orders db)" and "oid ord' = oid ord"
  shows "int (length (active_orders c (save_order ord' db))) =
           int (length (active_orders c db))
           - (if assigned_courier ord = Some c \<and> active (status ord) then 1 else 0)
           + (if assigned_courier ord' = Some c \<and> active (status ord') then 1 else 0)"
  using length_filter_replace[of oid "orders db" ord ord'
      "\<lambda>x. assigned_courier x = Some c \<and> active (status x)"] assms
  by (simp add: active_orders_def save_order_def keys_distinct_def)

lemma count_positive:
  assumes "ord \<in> set (orders db)" and "assigned_courier ord = Some c"
    and "active (status ord)"
  shows "1 \<le> int (length (active_orders c db))"
proof -
  from assms have "ord \<in> set (active_orders c db)"
    by (simp add: active_orders_def)
  then have "active_orders c db \<noteq> []"
    by auto
  then show ?thesis
    by (cases "active_orders c db") simp_all
qed

lemma keys_distinct_save_order [simp]: "keys_distinct (save_order ord db) = keys_distinct db"
proof -
  have "oid \<circ> (\<lambda>x. if oid x = oid ord then ord else x) = oid"
    by (auto simp: fun_eq_iff)
  then show ?thesis
    by (simp add: keys_distinct_def save_order_def)
qed

lemma keys_distinct_update_courier_workload [simp]:
  "keys_distinct (update_courier_workload c d db) = keys_distinct db"
  by (simp add: keys_distinct_def)

lemma keys_distinct_get_or_create [simp]:
  "keys_distinct (snd (get_or_create c db)) = keys_distinct db"
  by (simp add: keys_distinct_def)

lemma created_unassigned_save_order:
  assumes "created_unassigned db" and "status ord \<noteq> CREATED"
  shows "created_unassigned (save_order ord db)"
  using assms by (auto simp: created_unassigned_def save_order_def)

lemma created_unassigned_update_courier_workload [simp]:
  "created_unassigned (update_courier_workload c d db) = created_unassigned db"
  by (simp add: created_unassigned_def)

lemma created_unassigned_get_or_create [simp]:
  "created_unassigned (snd (get_or_create c db)) = created_unassigned db"
  by (simp add: created_unassigned_def)

section \<open>Every operation keeps the tables consistent\<close>

lemma consistent_workload_nonneg:
  assumes "consistent db"
  shows "0 \<le> workload c db"
  using assms by (simp add: consistent_def workloads_match_def)

lemma consistent_workload_positive:
  assumes "consistent db" and "ord \<in> set (orders db)" and "assigned_courier ord = Some c"
    and "active (status ord)"
  shows "1 \<le> workload c db"
  using assms count_positive[of ord db c] by (simp add: consistent_def workloads_match_def)

lemma consistent_created:
  assumes "consistent db" and "ord \<in> set (orders db)" and "assigned_courier ord = Some c"
  shows "status ord \<noteq> CREATED"
  using assms by (auto simp: consistent_def created_unassigned_def)

lemma consistent_get_or_create:
  assumes "consistent db"
  shows "consistent (snd (get_or_create c db))"
  using assms
  by (simp add: consistent_def rows_agree_get_or_create workloads_match_def)

text \<open>
  The pattern of every successful operation on a stored order: the row is replaced, and
  each courier's workload moves by what the row's change does to the courier's orders
  under way.
\<close>

lemma consistent_replace:
  assumes c: "consistent db" and m: "ord \<in> set (orders db)" and k: "oid ord' = oid ord"
    and s: "status ord' \<noteq> CREATED"
    and o: "orders db' = orders (save_order ord' db)"
    and r: "rows_agree db'"
    and w: "\<And>c. workload c db' =
              workload c db
              - (if assigned_courier ord = Some c \<and> active (status ord) then 1 else 0)
              + (if assigned_courier ord' = Some c \<and> active (status ord') then 1 else 0)"
  shows "consistent db'"
proof -
  from c have kd: "keys_distinct db" and cu: "created_unassigned db"
    and wm: "workloads_match db"
    by (simp_all add: consistent_def)
  from kd o have 1: "keys_distinct db'"
    using keys_distinct_save_order[of ord' db] by (simp add: keys_distinct_def)
  from created_unassigned_save_order[OF cu s] o have 2: "created_unassigned db'"
    by (simp add: created_unassigned_def)
  have "workload a db' = int (length (active_orders a db'))" for a
  proof -
    from o have "active_orders a db' = active_orders a (save_order ord' db)"
      by (simp add: active_orders_def)
    with count_save_order[OF kd m k, of a] w[of a] wm show ?thesis
      by (simp add: workloads_match_def)
  qed
  then have "workloads_match db'"
    by (simp add: workloads_match_def)
  with 1 2 r show ?thesis
    by (simp add: consistent_def)
qed

lemma active_simps [simp]:
  "active ASSIGNED" "active PICKED_UP" "active IN_TRANSIT"
  "\<not> active CREATED" "\<not> active DELIVERED" "\<not> active CANCELLED"
  by (simp_all add: active_def)

lemma serializer_update_fields [simp]:
  "assigned_courier (OrderStatusUpdateSerializer_update ord v now) = assigned_courier ord"
  "status (OrderStatusUpdateSerializer_update ord v now) = v"
  by (simp_all add: OrderStatusUpdateSerializer_update_def Let_def)

lemma consistent_update_status:
  assumes "consistent db"
  shows "consistent (snd (update_status u k x now db))"
proof (cases "fst (update_status u k x now db)")
  case (Inl e)
  then have "snd (update_status u k x now db) = db"
    by (auto simp: update_status_def Let_def split: if_splits option.splits sum.splits)
  with assms show ?thesis by simp
next
  case (Inr ord')
  then have "update_status u k x now db = (Inr ord', snd (update_status u k x now db))"
    by (metis prod.collapse)
  from update_status_InrD[OF this] obtain ord where
    g: "get_object u k db = Some ord" and
    v: "x \<in> set (valid_transitions (status ord))" and
    o': "ord' = OrderStatusUpdateSerializer_update ord x now" and
    os: "orders (snd (update_status u k x now db)) = orders (save_order ord' db)"
    by blast
  from get_object_SomeD[OF g] have m: "ord \<in> set (orders db)" and k: "oid ord = k"
    by simp_all
  let ?db' = "snd (update_status u k x now db)"
  have db': "?db' =
      (if (x = DELIVERED \<or> x = CANCELLED) \<and> assigned_courier ord \<noteq> None
       then update_courier_workload (the (assigned_courier ord)) (- 1) (save_order ord' db)
       else save_order ord' db)"
    using g v o' Inr
    by (auto simp: update_status_def validate_status_def Let_def split: if_splits)
  from v have x: "x \<noteq> CREATED"
    by (cases "status ord") auto
  from assms have ra: "rows_agree db"
    by (simp add: consistent_def)
  have r: "rows_agree ?db'"
    unfolding db' using ra by (simp add: rows_agree_update_courier_workload)
  have w: "workload c ?db' =
              workload c db
              - (if assigned_courier ord = Some c \<and> active (status ord) then 1 else 0)
              + (if assigned_courier ord' = Some c \<and> active (status ord') then 1 else 0)" for c
  proof (cases "assigned_courier ord")
    case None
    then show ?thesis
      unfolding db' by (simp add: o')
  next
    case (Some a)
    from assms m Some have nc: "status ord \<noteq> CREATED"
      by (rule consistent_created)
    show ?thesis
    proof (cases "x = DELIVERED \<or> x = CANCELLED")
      case True
      with v nc have act: "active (status ord)"
        by (cases "status ord") auto
      from consistent_workload_positive[OF assms m Some act] have "1 \<le> workload a db" .
      with True Some act show ?thesis
        unfolding db' by (auto simp: o' workload_update_courier_workload)
    next
      case False
      with v nc have "active (status ord) \<and> active x"
        by (cases "status ord"; cases x) auto
      with False Some show ?thesis
        unfolding db' by (simp add: o')
    qed
  qed
  show ?thesis
    by (rule consistent_replace[OF assms m _ _ os r w]) (simp_all add: o' x)
qed

lemma validate_courier_id_cases:
  "validate_courier_id v db = (Inl (courier_id_error ''Courier not found''), db) \<and>
     find (\<lambda>x. uid x = v \<and> role x = COURIER) (users db) = None \<or>
   validate_courier_id v db =
     (Inl (courier_id_error ''Courier is not available''), snd (get_or_create v db)) \<and>
     \<not> is_available (fst (get_or_create v db)) \<or>
   validate_courier_id v db = (Inr v, snd (get_or_create v db)) \<and>
     is_available (fst (get_or_create v db)) \<and>
     (\<exists>x. find (\<lambda>x. uid x = v \<and> role x = COURIER) (users db) = Some x)"
proof (cases "find (\<lambda>x. uid x = v \<and> role x = COURIER) (users db)")
  case None
  then show ?thesis by (simp add: validate_courier_id_def)
next
  case (Some c)
  then have "uid c = v"
    by (auto simp: find_Some_iff)
  with Some show ?thesis
    by (cases "get_or_create v db") (simp add: validate_courier_id_def)
qed

lemma consistent_validate_courier_id:
  assumes "consistent db"
  shows "consistent (snd (validate_courier_id v db))"
  using validate_courier_id_cases[of v db] assms consistent_get_or_create[OF assms, of v]
  by auto

lemma find_Some_holds:
  assumes "find P xs = Some x"
  shows "P x \<and> x \<in> set xs"
  using assms by (induction xs) (auto split: if_splits)

lemma find_uid_only:
  assumes "find (\<lambda>x. uid x = v \<and> role x = COURIER) (users db) = Some x"
  shows "\<exists>c. find (\<lambda>x. uid x = v) (users db) = Some c \<and> uid c = v"
proof (cases "find (\<lambda>x. uid x = v) (users db)")
  case None
  with find_Some_holds[OF assms] show ?thesis
    by (auto simp: find_None_iff)
next
  case (Some c)
  with find_Some_holds[OF Some] show ?thesis
    by simp
qed

text \<open>What a successful manual assignment returns and writes.\<close>

lemma assign_courier_InrD:
  assumes "assign_courier u k v now db = (Inr ord', db')"
  shows "\<exists>ord. role u = ADMIN \<and> get_object u k db = Some ord \<and>
           (status ord = CREATED \<or> status ord = ASSIGNED) \<and>
           validate_courier_id v db = (Inr v, snd (get_or_create v db)) \<and>
           ord' = ord\<lparr>assigned_courier := Some v, status := ASSIGNED,
                      assigned_at := Some now\<rparr> \<and>
           db' =
             (if assigned_courier ord \<noteq> Some v
              then update_courier_workload v 1
                (save_order ord'
                  (if assigned_courier ord \<noteq> None
                   then update_courier_workload (the (assigned_courier ord)) (- 1)
                          (snd (get_or_create v db))
                   else snd (get_or_create v db)))
              else save_order ord' (snd (get_or_create v db)))"
proof -
  from assms have p: "role u = ADMIN"
    by (auto simp: assign_courier_def get_permissions_def split: if_splits)
  from assms obtain ord where g: "get_object u k db = Some ord"
    by (cases "get_object u k db") (auto simp: assign_courier_def split: if_splits)
  from assms g have s: "status ord = CREATED \<or> status ord = ASSIGNED"
    by (auto simp: assign_courier_def split: if_splits)
  from validate_courier_id_cases[of v db] assms g s p
  have val: "validate_courier_id v db = (Inr v, snd (get_or_create v db))"
    and "\<exists>x. find (\<lambda>x. uid x = v \<and> role x = COURIER) (users db) = Some x"
    by (auto simp: assign_courier_def get_permissions_def)
  then obtain c where c: "find (\<lambda>x. uid x = v) (users db) = Some c" and cv: "uid c = v"
    using find_uid_only by blast
  from assms g s p val c cv show ?thesis
    by (auto simp: assign_courier_def get_permissions_def Let_def)
qed

lemma assign_courier_Inl:
  assumes "fst (assign_courier u k v now db) = Inl e"
  shows "snd (assign_courier u k v now db) = db \<or>
         snd (assign_courier u k v now db) = snd (get_or_create v db)"
proof (cases "\<exists>ord. role u = ADMIN \<and> get_object u k db = Some ord \<and>
                (status ord = CREATED \<or> status ord = ASSIGNED)")
  case False
  then show ?thesis
    by (auto simp: assign_courier_def get_permissions_def split: option.splits)
next
  case True
  then obtain ord where "role u = ADMIN" and "get_object u k db = Some ord"
    and "status ord = CREATED \<or> status ord = ASSIGNED"
    by blast
  with validate_courier_id_cases[of v db] assms show ?thesis
    by (auto simp: assign_courier_def get_permissions_def Let_def split: option.splits)
qed

lemma consistent_assign_courier:
  assumes "consistent db"
  shows "consistent (snd (assign_courier u k v now db))"
proof (cases "fst (assign_courier u k v now db)")
  case (Inl e)
  from assign_courier_Inl[OF Inl] assms consistent_get_or_create[OF assms, of v]
  show ?thesis by auto
next
  case (Inr ord')
  let ?db' = "snd (assign_courier u k v now db)"
  let ?db1 = "snd (get_or_create v db)"
  from Inr have "assign_courier u k v now db = (Inr ord', ?db')"
    by (metis prod.collapse)
  from assign_courier_InrD[OF this] obtain ord where
    g: "get_object u k db = Some ord" and
    s: "status ord = CREATED \<or> status ord = ASSIGNED" and
    o': "ord' = ord\<lparr>assigned_courier := Some v, status := ASSIGNED, assigned_at := Some now\<rparr>"
    and db': "?db' =
             (if assigned_courier ord \<noteq> Some v
              then update_courier_workload v 1
                (save_order ord'
                  (if assigned_courier ord \<noteq> None
                   then update_courier_workload (the (assigned_courier ord)) (- 1) ?db1
                   else ?db1))
              else save_order ord' ?db1)"
    by blast
  from get_object_SomeD[OF g] have m: "ord \<in> set (orders ?db1)"
    by simp
  from assms have c1: "consistent ?db1"
    by (rule consistent_get_or_create)
  then have ra: "rows_agree ?db1"
    by (simp add: consistent_def)
  have os: "orders ?db' = orders (save_order ord' ?db1)"
    unfolding db' by (simp add: save_order_def)
  have r: "rows_agree ?db'"
    unfolding db' using ra by (simp add: rows_agree_update_courier_workload)
  have nn: "0 \<le> workload v ?db1"
    using c1 by (rule consistent_workload_nonneg)
  have w: "workload c ?db' =
              workload c ?db1
              - (if assigned_courier ord = Some c \<and> active (status ord) then 1 else 0)
              + (if assigned_courier ord' = Some c \<and> active (status ord') then 1 else 0)" for c
  proof (cases "assigned_courier ord")
    case None
    with nn show ?thesis
      unfolding db' by (simp add: o' workload_update_courier_workload)
  next
    case (Some a)
    from c1 m Some have "status ord \<noteq> CREATED"
      by (rule consistent_created)
    with s have act: "active (status ord)"
      by auto
    from consistent_workload_positive[OF c1 m Some act] have "1 \<le> workload a ?db1" .
    with Some act nn show ?thesis
      unfolding db' by (auto simp: o' workload_update_courier_workload)
  qed
  show ?thesis
    by (rule consistent_replace[OF c1 m _ _ os r w]) (simp_all add: o')
qed

text \<open>What a successful reassignment returns and writes.\<close>

lemma reassign_courier_InrD:
  assumes "reassign_courier u k v now db = (Inr ord', db')"
  shows "\<exists>ord old. get_object u k db = Some ord \<and>
           (status ord = ASSIGNED \<or> status ord = PICKED_UP) \<and>
           assigned_courier ord = Some old \<and> old \<noteq> v \<and>
           validate_courier_id v db = (Inr v, snd (get_or_create v db)) \<and>
           ord' =
             (if status ord = PICKED_UP
              then ord\<lparr>assigned_courier := Some v, assigned_at := Some now,
                       status := ASSIGNED, picked_up_at := None\<rparr>
              else ord\<lparr>assigned_courier := Some v, assigned_at := Some now\<rparr>) \<and>
           db' =
             save_order ord'
               (update_courier_workload v 1
                  (update_courier_workload old (- 1) (snd (get_or_create v db))))"
proof -
  from assms obtain ord where g: "get_object u k db = Some ord"
    by (cases "get_object u k db") (auto simp: reassign_courier_def split: if_splits)
  from assms g have s: "status ord = ASSIGNED \<or> status ord = PICKED_UP"
    by (auto simp: reassign_courier_def split: if_splits)
  from assms g s obtain old where a: "assigned_courier ord = Some old"
    by (cases "assigned_courier ord") (auto simp: reassign_courier_def split: if_splits)
  from validate_courier_id_cases[of v db] assms g s a
  have val: "validate_courier_id v db = (Inr v, snd (get_or_create v db))"
    and "\<exists>x. find (\<lambda>x. uid x = v \<and> role x = COURIER) (users db) = Some x"
    by (auto simp: reassign_courier_def get_permissions_def)
  then obtain c where c: "find (\<lambda>x. uid x = v) (users db) = Some c" and cv: "uid c = v"
    using find_uid_only by blast
  from assms g s a val c cv have n: "old \<noteq> v"
    by (auto simp: reassign_courier_def get_permissions_def Let_def split: if_splits)
  from assms g s a val c cv n show ?thesis
    by (auto simp: reassign_courier_def get_permissions_def Let_def)
qed

lemma reassign_courier_Inl:
  assumes "fst (reassign_courier u k v now db) = Inl e"
  shows "snd (reassign_courier u k v now db) = db \<or>
         snd (reassign_courier u k v now db) = snd (get_or_create v db)"
proof (cases "\<exists>ord old. get_object u k db = Some ord \<and>
                (status ord = ASSIGNED \<or> status ord = PICKED_UP) \<and>
                assigned_courier ord = Some old")
  case False
  then show ?thesis
    by (auto simp: reassign_courier_def get_permissions_def split: option.splits)
next
  case True
  then obtain ord old where "get_object u k db = Some ord"
    and "status ord = ASSIGNED \<or> status ord = PICKED_UP"
    and "assigned_courier ord = Some old"
    by blast
  with validate_courier_id_cases[of v db] assms show ?thesis
    by (auto simp: reassign_courier_def get_permissions_def Let_def split: option.splits)
qed

lemma consistent_reassign_courier:
  assumes "consistent db"
  shows "consistent (snd (reassign_courier u k v now db))"
proof (cases "fst (reassign_courier u k v now db)")
  case (Inl e)
  from reassign_courier_Inl[OF Inl] assms consistent_get_or_create[OF assms, of v]
  show ?thesis by auto
next
  case (Inr ord')
  let ?db' = "snd (reassign_courier u k v now db)"
  let ?db1 = "snd (get_or_create v db)"
  from Inr have "reassign_courier u k v now db = (Inr ord', ?db')"
    by (metis prod.collapse)
  from reassign_courier_InrD[OF this] obtain ord old where
    g: "get_object u k db = Some ord" and
    s: "status ord = ASSIGNED \<or> status ord = PICKED_UP" and
    a: "assigned_courier ord = Some old" and n: "old \<noteq> v" and
    o': "ord' =
             (if status ord = PICKED_UP
              then ord\<lparr>assigned_courier := Some v, assigned_at := Some now,
                       status := ASSIGNED, picked_up_at := None\<rparr>
              else ord\<lparr>assigned_courier := Some v, assigned_at := Some now\<rparr>)"
    and db': "?db' =
             save_order ord'
               (update_courier_workload v 1 (update_courier_workload old (- 1) ?db1))"
    by blast
  from get_object_SomeD[OF g] have m: "ord \<in> set (orders ?db1)"
    by simp
  from assms have c1: "consistent ?db1"
    by (rule consistent_get_or_create)
  then have ra: "rows_agree ?db1"
    by (simp add: consistent_def)
  have os: "orders ?db' = orders (save_order ord' ?db1)"
    unfolding db' by (simp add: save_order_def)
  have r: "rows_agree ?db'"
    unfolding db' using ra by (simp add: rows_agree_update_courier_workload)
  have nn: "0 \<le> workload v ?db1"
    using c1 by (rule consistent_workload_nonneg)
  from s have act: "active (status ord)"
    by auto
  from consistent_workload_positive[OF c1 m a act] have p: "1 \<le> workload old ?db1" .
  have w: "workload c ?db' =
              workload c ?db1
              - (if assigned_courier ord = Some c \<and> active (status ord) then 1 else 0)
              + (if assigned_courier ord' = Some c \<and> active (status ord') then 1 else 0)" for c
    using a n s nn p
    unfolding db' by (auto simp: o' workload_update_courier_workload)
  show ?thesis
    by (rule consistent_replace[OF c1 m _ _ os r w]) (use s in \<open>auto simp: o'\<close>)
qed

text \<open>Acceptance by a courier.\<close>

lemma accept_order_cases:
  "snd (accept_order u k now db) = db \<or>
   snd (accept_order u k now db) = snd (get_or_create (uid u) db) \<or>
   (\<exists>ord. get_object u k db = Some ord \<and> status ord = CREATED \<and>
      accept_order u k now db =
        (Inr (ord\<lparr>assigned_courier := Some (uid u), status := ASSIGNED,
                  assigned_at := Some now\<rparr>),
         update_courier_workload (uid u) 1
           (save_order (ord\<lparr>assigned_courier := Some (uid u), status := ASSIGNED,
                  assigned_at := Some now\<rparr>) (snd (get_or_create (uid u) db)))))"
  by (cases "get_or_create (uid u) db")
    (auto simp: accept_order_def Let_def split: option.splits)

lemma consistent_accept_order:
  assumes "consistent db"
  shows "consistent (snd (accept_order u k now db))"
proof -
  let ?db1 = "snd (get_or_create (uid u) db)"
  from assms have c1: "consistent ?db1"
    by (rule consistent_get_or_create)
  from accept_order_cases[of u k now db] show ?thesis
  proof (elim disjE exE conjE)
    assume "snd (accept_order u k now db) = db"
    with assms show ?thesis by simp
  next
    assume "snd (accept_order u k now db) = ?db1"
    with c1 show ?thesis by simp
  next
    fix ord :: order
    let ?ord' = "ord\<lparr>assigned_courier := Some (uid u), status := ASSIGNED,
                  assigned_at := Some now\<rparr>"
    assume g: "get_object u k db = Some ord" and s: "status ord = CREATED"
      and e: "accept_order u k now db =
               (Inr ?ord', update_courier_workload (uid u) 1 (save_order ?ord' ?db1))"
    let ?db' = "update_courier_workload (uid u) 1 (save_order ?ord' ?db1)"
    from get_object_SomeD[OF g] have m: "ord \<in> set (orders ?db1)"
      by simp
    from c1 have ra: "rows_agree ?db1"
      by (simp add: consistent_def)
    have os: "orders ?db' = orders (save_order ?ord' ?db1)"
      by simp
    have r: "rows_agree ?db'"
      using ra by (simp add: rows_agree_update_courier_workload)
    have nn: "0 \<le> workload (uid u) ?db1"
      using c1 by (rule consistent_workload_nonneg)
    have w: "workload c ?db' =
              workload c ?db1
              - (if assigned_courier ord = Some c \<and> active (status ord) then 1 else 0)
              + (if assigned_courier ?ord' = Some c \<and> active (status ?ord') then 1 else 0)"
      for c
      using s nn by (auto simp: workload_update_courier_workload)
    have "consistent ?db'"
      by (rule consistent_replace[OF c1 m _ _ os r w]) simp_all
    with e show ?thesis by simp
  qed
qed

text \<open>A courier's change of availability.\<close>

lemma consistent_update_availability:
  assumes "consistent db"
  shows "consistent (snd (update_availability u a db))"
proof (cases "role u = COURIER")
  case False
  with assms show ?thesis by (simp add: update_availability_def)
next
  case True
  let ?db1 = "snd (get_or_create (uid u) db)"
  let ?cs = "fst (get_or_create (uid u) db)"
  let ?cs' = "case a of None \<Rightarrow> ?cs | Some b \<Rightarrow> ?cs\<lparr>is_available := b\<rparr>"
  from True have e: "snd (update_availability u a db) = save_courier_status ?cs' ?db1"
    by (cases "get_or_create (uid u) db"; cases a)
      (simp_all add: update_availability_def Let_def)
  from assms have c1: "consistent ?db1"
    by (rule consistent_get_or_create)
  have k: "courier ?cs' = uid u" and n: "current_orders_count ?cs' = workload (uid u) db"
    by (simp_all add: count_get_or_create split: option.splits)
  have f: "find (\<lambda>r. courier r = courier ?cs') (courier_statuses ?db1) = Some ?cs"
    by (simp only: k find_get_or_create)
  have w: "workload c (save_courier_status ?cs' ?db1) = workload c ?db1" for c
    using workload_save_courier_status[OF f, of c] k n by simp
  from c1 have "rows_agree ?db1"
    by (simp add: consistent_def)
  then have "rows_agree (save_courier_status ?cs' ?db1)"
    using f by (rule rows_agree_save_courier_status)
  with c1 w have "consistent (save_courier_status ?cs' ?db1)"
    by (simp add: consistent_def keys_distinct_def created_unassigned_def workloads_match_def)
  with e show ?thesis by simp
qed

text \<open>Order creation with automatic assignment.\<close>

lemma consistent_append_order:
  assumes "consistent db" and "\<forall>x \<in> set (orders db). oid x \<noteq> oid n"
    and "status n = CREATED" and "assigned_courier n = None"
  shows "consistent (db\<lparr>orders := orders db @ [n]\<rparr>)"
  using assms
  by (auto simp: consistent_def keys_distinct_def created_unassigned_def workloads_match_def
      active_orders_def)

lemma consistent_try_auto_assignment:
  assumes "consistent db" and "ord \<in> set (orders db)" and "status ord = CREATED"
  shows "consistent (snd (try_auto_assignment ord now db))"
proof (cases "available_couriers db")
  case Nil
  with assms show ?thesis by (simp add: try_auto_assignment_def)
next
  case (Cons cs rest)
  let ?ord' = "ord\<lparr>assigned_courier := Some (courier cs), status := ASSIGNED,
                  assigned_at := Some now\<rparr>"
  let ?db' = "update_courier_workload (courier cs) 1 (save_order ?ord' db)"
  from Cons have e: "snd (try_auto_assignment ord now db) = ?db'"
    by (simp add: try_auto_assignment_def Let_def)
  from assms(1) have ra: "rows_agree db"
    by (simp add: consistent_def)
  have os: "orders ?db' = orders (save_order ?ord' db)"
    by simp
  have r: "rows_agree ?db'"
    using ra by (simp add: rows_agree_update_courier_workload)
  have nn: "0 \<le> workload (courier cs) db"
    using assms(1) by (rule consistent_workload_nonneg)
  have w: "workload c ?db' =
              workload c db
              - (if assigned_courier ord = Some c \<and> active (status ord) then 1 else 0)
              + (if assigned_courier ?ord' = Some c \<and> active (status ?ord') then 1 else 0)"
    for c
    using assms(3) nn by (auto simp: workload_update_courier_workload)
  have "consistent ?db'"
    by (rule consistent_replace[OF assms(1,2) _ _ os r w]) simp_all
  with e show ?thesis by simp
qed

lemma consistent_OrderViewSet_create:
  assumes "consistent db"
  shows "consistent (snd (OrderViewSet_create u d now db))"
proof (cases "get_permissions Create u \<and> (\<exists>v. is_valid d = Inr v) \<and>
              (\<exists>cfg. find is_active (pricing_configs db) = Some cfg)")
  case False
  then have "snd (OrderViewSet_create u d now db) = db"
    by (auto simp: OrderViewSet_create_def OrderCreateSerializer_create_def
        split: sum.splits option.splits)
  with assms show ?thesis by simp
next
  case True
  then obtain v cfg where p: "get_permissions Create u" and v: "is_valid d = Inr v"
    and c: "find is_active (pricing_configs db) = Some cfg"
    by blast
  let ?n = "new_order (uid u) (data_pickup_address v) (data_delivery_address v)
              (data_distance_km v) (price_for cfg (data_distance_km v)) now db"
  let ?db1 = "db\<lparr>orders := orders db @ [?n]\<rparr>"
  from c have s: "OrderCreateSerializer_create u v now db = (Inr ?n, ?db1)"
    by (rule OrderCreateSerializer_create_Some)
  from p v s have e: "snd (OrderViewSet_create u d now db) =
                        snd (try_auto_assignment ?n now ?db1)"
    by (simp add: OrderViewSet_create_def split: prod.splits)
  have "consistent ?db1"
    using assms oid_new_order_fresh[of db]
    by (rule consistent_append_order) (simp_all add: new_order_def)
  then have "consistent (snd (try_auto_assignment ?n now ?db1))"
    by (rule consistent_try_auto_assignment) (simp_all add: new_order_def)
  with e show ?thesis by simp
qed

text \<open>Runs.\<close>

lemma consistent_handle:
  assumes "consistent db"
  shows "consistent (handle r db)"
  using assms
  by (cases r)
    (simp_all add: consistent_OrderViewSet_create consistent_update_status
      consistent_assign_courier consistent_reassign_courier consistent_accept_order
      consistent_update_availability)

lemma consistent_run:
  assumes "consistent db"
  shows "consistent (run rs db)"
  using assms unfolding run_def
  by (induction rs arbitrary: db) (simp_all add: consistent_handle)

lemma initial_consistent:
  assumes "initial db"
  shows "consistent db"
proof -
  from assms have o: "orders db = []"
    and z: "\<forall>r \<in> set (courier_statuses db). current_orders_count r = 0"
    by (simp_all add: initial_def)
  have w: "workload c db = 0" for c
  proof (cases "find (\<lambda>r. courier r = c) (courier_statuses db)")
    case None
    then show ?thesis by (simp add: workload_def)
  next
    case (Some r)
    with find_Some_holds[OF Some] z show ?thesis
      by (simp add: workload_def)
  qed
  with o z show ?thesis
    by (simp add: consistent_def keys_distinct_def created_unassigned_def rows_agree_def
        workloads_match_def active_orders_def)
qed

section \<open>Workload bookkeeping\<close>

text \<open>
  C2. Start from a database without orders in which every counter is zero, and serve any
  list of requests for order creation (with automatic assignment), status update, manual
  assignment, reassignment, acceptance and change of availability. Afterwards the
  \<open>current_orders_count\<close> of every courier status row is the number of orders whose
  assigned courier is the row's courier and whose status is \<open>ASSIGNED\<close>, \<open>PICKED_UP\<close> or
  \<open>IN_TRANSIT\<close>; a courier without a row has no such order.
\<close>

theorem workload_bookkeeping:
  assumes "initial db0"
  shows "(\<forall>r \<in> set (courier_statuses (run rs db0)).
            current_orders_count r =
              int (length (filter (\<lambda>x. assigned_courier x = Some (courier r) \<and>
                     status x \<in> {ASSIGNED, PICKED_UP, IN_TRANSIT}) (orders (run rs db0))))) \<and>
         (\<forall>c. workload c (run rs db0) =
              int (length (filter (\<lambda>x. assigned_courier x = Some c \<and>
                     status x \<in> {ASSIGNED, PICKED_UP, IN_TRANSIT}) (orders (run rs db0))))) \<and>
         distinct (map oid (orders (run rs db0)))"
proof -
  from assms have "consistent db0"
    by (rule initial_consistent)
  then have c: "consistent (run rs db0)"
    by (rule consistent_run)
  have a: "active_orders c db =
             filter (\<lambda>x. assigned_courier x = Some c \<and>
               status x \<in> {ASSIGNED, PICKED_UP, IN_TRANSIT}) (orders db)" for c db
    by (simp add: active_orders_def active_def)
  from c show ?thesis
    by (simp add: consistent_def rows_agree_def workloads_match_def keys_distinct_def a)
qed

lemma run_day:
  "run day shop =
     shop\<lparr>orders :=
       [order1\<lparr>assigned_courier := Some 3, assigned_at := Some 13\<rparr>,
        order1\<lparr>oid := 2, assigned_courier := Some 3, status := DELIVERED, created_at := 11,
               assigned_at := Some 11, picked_up_at := Some 14, in_transit_at := Some 15,
               delivered_at := Some 16\<rparr>],
      courier_statuses :=
        [\<lparr>courier = 2, is_available = True, current_orders_count = 0\<rparr>,
         \<lparr>courier = 3, is_available = True, current_orders_count = 1\<rparr>]\<rparr>"
  by (simp add: day_def order1_def view_defs Let_def)

theorem workload_bookkeeping_witness:
  "initial shop \<and>
   map current_orders_count (courier_statuses (run day shop)) = [0, 1] \<and>
   map (\<lambda>r. int (length (filter (\<lambda>x. assigned_courier x = Some (courier r) \<and>
          status x \<in> {ASSIGNED, PICKED_UP, IN_TRANSIT}) (orders (run day shop)))))
     (courier_statuses (run day shop)) = [0, 1]"
proof -
  have i: "initial shop"
    by (simp add: initial_def shop_def)
  have m: "map current_orders_count (courier_statuses (run day shop)) = [0, 1]"
    by (simp add: run_day)
  from workload_bookkeeping[OF i, of day]
  have "map (\<lambda>r. int (length (filter (\<lambda>x. assigned_courier x = Some (courier r) \<and>
          status x \<in> {ASSIGNED, PICKED_UP, IN_TRANSIT}) (orders (run day shop)))))
     (courier_statuses (run day shop)) = map current_orders_count (courier_statuses (run day shop))"
    by (intro map_cong) simp_all
  with i m show ?thesis by simp
qed

section \<open>Reassignment\<close>






section \<open>Manual assignment to the courier an order already has\<close>

lemma update_same_courier:
  assumes "assigned_courier ord = Some c"
  shows "ord\<lparr>assigned_courier := Some c, status := s, assigned_at := t\<rparr> =
         ord\<lparr>status := s, assigned_at := t\<rparr>"
  using assms by (cases ord) simp

text \<open>
  C6 (amended). An admin's manual assignment of an order to the courier it already has
  is never refused for that reason. When the order is \<open>CREATED\<close> or \<open>ASSIGNED\<close> and the
  courier is a user of role \<open>COURIER\<close> whose status row (created on the spot when
  missing) is available, the request succeeds: the order returned and stored is the old
  one with status \<open>ASSIGNED\<close> and \<open>assigned_at\<close> set to the current time, the courier
  and all other fields as before. Otherwise it fails with the error of the order's
  status or of the courier's validation and the order table is unchanged. In every case
  all workloads are unchanged.
\<close>

theorem assign_courier_same_courier:
  assumes "role u = ADMIN" and "get_object u k db = Some ord"
    and "assigned_courier ord = Some c"
  shows "(\<forall>c'. workload c' (snd (assign_courier u k c now db)) = workload c' db) \<and>
         (if (status ord = CREATED \<or> status ord = ASSIGNED) \<and>
             find (\<lambda>x. uid x = c \<and> role x = COURIER) (users db) \<noteq> None \<and>
             is_available (fst (get_or_create c db))
          then fst (assign_courier u k c now db) =
                 Inr (ord\<lparr>status := ASSIGNED, assigned_at := Some now\<rparr>) \<and>
               stored_order k (snd (assign_courier u k c now db)) =
                 Some (ord\<lparr>status := ASSIGNED, assigned_at := Some now\<rparr>)
          else fst (assign_courier u k c now db) \<in>
                 {Inl (Response400
                    ''Can only assign couriers to orders with CREATED or ASSIGNED status''),
                  Inl (courier_id_error ''Courier not found''),
                  Inl (courier_id_error ''Courier is not available'')} \<and>
               orders (snd (assign_courier u k c now db)) = orders db)"
proof (cases "status ord = CREATED \<or> status ord = ASSIGNED")
  case False
  with assms have "assign_courier u k c now db =
      (Inl (Response400
         ''Can only assign couriers to orders with CREATED or ASSIGNED status''), db)"
    by (simp add: assign_courier_def get_permissions_def)
  with False show ?thesis by simp
next
  case True
  let ?db1 = "snd (get_or_create c db)"
  let ?ord' = "ord\<lparr>status := ASSIGNED, assigned_at := Some now\<rparr>"
  from validate_courier_id_cases[of c db]
  consider
    (missing) "validate_courier_id c db = (Inl (courier_id_error ''Courier not found''), db)"
      "find (\<lambda>x. uid x = c \<and> role x = COURIER) (users db) = None"
  | (away) "validate_courier_id c db =
              (Inl (courier_id_error ''Courier is not available''), ?db1)"
      "\<not> is_available (fst (get_or_create c db))"
  | (ready) "validate_courier_id c db = (Inr c, ?db1)"
      "is_available (fst (get_or_create c db))"
      "\<exists>x. find (\<lambda>x. uid x = c \<and> role x = COURIER) (users db) = Some x"
    by (elim disjE conjE) simp_all
  then show ?thesis
  proof cases
    case missing
    with assms True have "assign_courier u k c now db =
        (Inl (courier_id_error ''Courier not found''), db)"
      by (auto simp: assign_courier_def get_permissions_def)
    with missing show ?thesis by simp
  next
    case away
    with assms True have "assign_courier u k c now db =
        (Inl (courier_id_error ''Courier is not available''), ?db1)"
      by (auto simp: assign_courier_def get_permissions_def)
    with away show ?thesis by simp
  next
    case ready
    then obtain x where x: "find (\<lambda>x. uid x = c) (users db) = Some x" and xc: "uid x = c"
      using find_uid_only by blast
    from assms True ready(1) x xc
    have "assign_courier u k c now db =
            (Inr (ord\<lparr>assigned_courier := Some c, status := ASSIGNED,
                      assigned_at := Some now\<rparr>),
             save_order (ord\<lparr>assigned_courier := Some c, status := ASSIGNED,
                      assigned_at := Some now\<rparr>) ?db1)"
      by (auto simp: assign_courier_def get_permissions_def Let_def)
    then have r: "assign_courier u k c now db = (Inr ?ord', save_order ?ord' ?db1)"
      by (simp add: update_same_courier[OF assms(3)])
    from get_object_SomeD[OF assms(2)] have "ord \<in> set (orders ?db1)" and k: "oid ord = k"
      by simp_all
    then have "stored_order (oid ord) (save_order ?ord' ?db1) = Some ?ord'"
      by (intro stored_order_save_order) simp_all
    with r k True ready show ?thesis
      by auto
  qed
qed

theorem assign_courier_same_courier_witness:
  "role dave = ADMIN \<and> get_object dave 1 shop1 = Some order1 \<and>
   assigned_courier order1 = Some 2 \<and>
   fst (assign_courier dave 1 2 12 shop1) = Inr (order1\<lparr>assigned_at := Some 12\<rparr>) \<and>
   workload 2 shop1 = 1 \<and> workload 2 (snd (assign_courier dave 1 2 12 shop1)) = 1"
proof -
  have a: "role dave = ADMIN"
    by (simp add: dave_def)
  have g: "get_object dave 1 shop1 = Some order1"
    by (simp add: shop1_eq get_object_def get_queryset_def dave_def order1_def)
  have c: "assigned_courier order1 = Some 2"
    by (simp add: order1_def)
  have f: "fst (assign_courier dave 1 2 12 shop1) = Inr (order1\<lparr>assigned_at := Some 12\<rparr>)"
    by (simp add: shop1_eq) (simp add: order1_def view_defs Let_def)
  have w: "workload 2 shop1 = 1"
    by (simp add: shop1_eq workload_def)
  from assign_courier_same_courier[OF a g c, of 12] w
  have "workload 2 (snd (assign_courier dave 1 2 12 shop1)) = 1"
    by simp
  with a g c f w show ?thesis by simp
qed

text \<open>
  The order of \<open>shop1\<close> was assigned to courier 2 at time 10. The admin's request at time
  12 to assign it to courier 2 is answered with the order, not with an error, and the
  stored order's \<open>assigned_at\<close> has moved from 10 to 12.
\<close>

theorem assign_courier_same_courier_counterexample:
  "stored_order 1 shop1 = Some order1 \<and> assigned_courier order1 = Some 2 \<and>
   assigned_at order1 = Some 10 \<and>
   fst (assign_courier dave 1 2 12 shop1) = Inr (order1\<lparr>assigned_at := Some 12\<rparr>) \<and>
   stored_order 1 (snd (assign_courier dave 1 2 12 shop1)) =
     Some (order1\<lparr>assigned_at := Some 12\<rparr>)"
  by (simp add: shop1_eq) (simp add: order1_def view_defs Let_def)

section \<open>Orders past creation and their couriers\<close>

lemma couriers_assigned_replace:
  assumes "couriers_assigned db" and "orders db' = orders (save_order ord' db)"
    and "status ord' \<in> {ASSIGNED, PICKED_UP, IN_TRANSIT, DELIVERED} \<longrightarrow>
         assigned_courier ord' \<noteq> None"
  shows "couriers_assigned db'"
  using assms by (auto simp: couriers_assigned_def save_order_def)

lemma update_status_Inl:
  assumes "fst (update_status u k x now db) = Inl e"
  shows "snd (update_status u k x now db) = db"
  using assms
  by (auto simp: update_status_def Let_def split: if_splits option.splits sum.splits)

lemma couriers_assigned_update_status:
  assumes "couriers_assigned db" and "x \<noteq> ASSIGNED"
  shows "couriers_assigned (snd (update_status u k x now db))"
proof (cases "fst (update_status u k x now db)")
  case (Inl e)
  with assms(1) show ?thesis by (simp add: update_status_Inl)
next
  case (Inr ord')
  then have "update_status u k x now db = (Inr ord', snd (update_status u k x now db))"
    by (metis prod.collapse)
  from update_status_InrD[OF this] obtain ord where
    g: "get_object u k db = Some ord" and
    v: "x \<in> set (valid_transitions (status ord))" and
    o': "ord' = OrderStatusUpdateSerializer_update ord x now" and
    os: "orders (snd (update_status u k x now db)) = orders (save_order ord' db)"
    by blast
  from get_object_SomeD[OF g] have m: "ord \<in> set (orders db)"
    by simp
  have "assigned_courier ord \<noteq> None" if "x \<in> {ASSIGNED, PICKED_UP, IN_TRANSIT, DELIVERED}"
  proof -
    from that v assms(2) have "status ord \<in> {ASSIGNED, PICKED_UP, IN_TRANSIT, DELIVERED}"
      by (cases "status ord") auto
    with assms(1) m show ?thesis
      by (auto simp: couriers_assigned_def)
  qed
  then have "status ord' \<in> {ASSIGNED, PICKED_UP, IN_TRANSIT, DELIVERED} \<longrightarrow>
             assigned_courier ord' \<noteq> None"
    by (simp add: o')
  with assms(1) os show ?thesis
    by (rule couriers_assigned_replace)
qed

lemma couriers_assigned_assign_courier:
  assumes "couriers_assigned db"
  shows "couriers_assigned (snd (assign_courier u k v now db))"
proof (cases "fst (assign_courier u k v now db)")
  case (Inl e)
  from assign_courier_Inl[OF Inl] have
    "orders (snd (assign_courier u k v now db)) = orders db"
    by auto
  with assms show ?thesis by (simp add: couriers_assigned_def)
next
  case (Inr ord')
  let ?db' = "snd (assign_courier u k v now db)"
  from Inr have "assign_courier u k v now db = (Inr ord', ?db')"
    by (metis prod.collapse)
  from assign_courier_InrD[OF this] obtain ord where
    o': "ord' = ord\<lparr>assigned_courier := Some v, status := ASSIGNED, assigned_at := Some now\<rparr>"
    and db': "?db' =
             (if assigned_courier ord \<noteq> Some v
              then update_courier_workload v 1
                (save_order ord'
                  (if assigned_courier ord \<noteq> None
                   then update_courier_workload (the (assigned_courier ord)) (- 1)
                          (snd (get_or_create v db))
                   else snd (get_or_create v db)))
              else save_order ord' (snd (get_or_create v db)))"
    by blast
  have "orders ?db' = orders (save_order ord' db)"
    unfolding db' by (simp add: save_order_def)
  with assms show ?thesis
    by (rule couriers_assigned_replace) (simp add: o')
qed

lemma couriers_assigned_reassign_courier:
  assumes "couriers_assigned db"
  shows "couriers_assigned (snd (reassign_courier u k v now db))"
proof (cases "fst (reassign_courier u k v now db)")
  case (Inl e)
  from reassign_courier_Inl[OF Inl] have
    "orders (snd (reassign_courier u k v now db)) = orders db"
    by auto
  with assms show ?thesis by (simp add: couriers_assigned_def)
next
  case (Inr ord')
  let ?db' = "snd (reassign_courier u k v now db)"
  from Inr have "reassign_courier u k v now db = (Inr ord', ?db')"
    by (metis prod.collapse)
  from reassign_courier_InrD[OF this] obtain ord old where
    o': "ord' =
             (if status ord = PICKED_UP
              then ord\<lparr>assigned_courier := Some v, assigned_at := Some now,
                       status := ASSIGNED, picked_up_at := None\<rparr>
              else ord\<lparr>assigned_courier := Some v, assigned_at := Some now\<rparr>)"
    and db': "?db' =
             save_order ord'
               (update_courier_workload v 1
                  (update_courier_workload old (- 1) (snd (get_or_create v db))))"
    by blast
  have "orders ?db' = orders (save_order ord' db)"
    unfolding db' by (simp add: save_order_def)
  with assms show ?thesis
    by (rule couriers_assigned_replace) (simp add: o')
qed

lemma couriers_assigned_accept_order:
  assumes "couriers_assigned db"
  shows "couriers_assigned (snd (accept_order u k now db))"
  using accept_order_cases[of u k now db]
proof (elim disjE exE conjE)
  assume "snd (accept_order u k now db) = db"
  with assms show ?thesis by simp
next
  assume "snd (accept_order u k now db) = snd (get_or_create (uid u) db)"
  with assms show ?thesis by (simp add: couriers_assigned_def)
next
  fix ord :: order
  let ?ord' = "ord\<lparr>assigned_courier := Some (uid u), status := ASSIGNED,
                  assigned_at := Some now\<rparr>"
  assume "accept_order u k now db =
               (Inr ?ord', update_courier_workload (uid u) 1
                  (save_order ?ord' (snd (get_or_create (uid u) db))))"
  then have "orders (snd (accept_order u k now db)) = orders (save_order ?ord' db)"
    by (simp add: save_order_def)
  with assms show ?thesis
    by (rule couriers_assigned_replace) simp
qed

lemma orders_update_availability [simp]:
  "orders (snd (update_availability u a db)) = orders db"
  using orders_get_or_create[of "uid u" db]
  by (cases "get_or_create (uid u) db") (auto simp: update_availability_def Let_def)

lemma couriers_assigned_try_auto_assignment:
  assumes "couriers_assigned db"
  shows "couriers_assigned (snd (try_auto_assignment ord now db))"
proof (cases "available_couriers db")
  case Nil
  with assms show ?thesis by (simp add: try_auto_assignment_def)
next
  case (Cons cs rest)
  let ?ord' = "ord\<lparr>assigned_courier := Some (courier cs), status := ASSIGNED,
                  assigned_at := Some now\<rparr>"
  from Cons have "orders (snd (try_auto_assignment ord now db)) = orders (save_order ?ord' db)"
    by (simp add: try_auto_assignment_def Let_def)
  with assms show ?thesis
    by (rule couriers_assigned_replace) simp
qed

lemma couriers_assigned_OrderViewSet_create:
  assumes "couriers_assigned db"
  shows "couriers_assigned (snd (OrderViewSet_create u d now db))"
proof (cases "get_permissions Create u \<and> (\<exists>v. is_valid d = Inr v) \<and>
              (\<exists>cfg. find is_active (pricing_configs db) = Some cfg)")
  case False
  then have "snd (OrderViewSet_create u d now db) = db"
    by (auto simp: OrderViewSet_create_def OrderCreateSerializer_create_def
        split: sum.splits option.splits)
  with assms show ?thesis by simp
next
  case True
  then obtain v cfg where p: "get_permissions Create u" and v: "is_valid d = Inr v"
    and c: "find is_active (pricing_configs db) = Some cfg"
    by blast
  let ?n = "new_order (uid u) (data_pickup_address v) (data_delivery_address v)
              (data_distance_km v) (price_for cfg (data_distance_km v)) now db"
  let ?db1 = "db\<lparr>orders := orders db @ [?n]\<rparr>"
  from c have s: "OrderCreateSerializer_create u v now db = (Inr ?n, ?db1)"
    by (rule OrderCreateSerializer_create_Some)
  from p v s have e: "snd (OrderViewSet_create u d now db) =
                        snd (try_auto_assignment ?n now ?db1)"
    by (simp add: OrderViewSet_create_def split: prod.splits)
  from assms have "couriers_assigned ?db1"
    by (simp add: couriers_assigned_def new_order_def)
  then have "couriers_assigned (snd (try_auto_assignment ?n now ?db1))"
    by (rule couriers_assigned_try_auto_assignment)
  with e show ?thesis by simp
qed

lemma couriers_assigned_handle:
  assumes "couriers_assigned db" and "\<not> asks_assigned r"
  shows "couriers_assigned (handle r db)"
  using assms
  by (cases r)
    (simp_all add: couriers_assigned_OrderViewSet_create couriers_assigned_update_status
      couriers_assigned_assign_courier couriers_assigned_reassign_courier
      couriers_assigned_accept_order couriers_assigned_def[of "snd (update_availability _ _ _)"]
      couriers_assigned_def[of db])

lemma couriers_assigned_run:
  assumes "couriers_assigned db" and "\<forall>r \<in> set rs. \<not> asks_assigned r"
  shows "couriers_assigned (run rs db)"
  using assms unfolding run_def
  by (induction rs arbitrary: db) (simp_all add: couriers_assigned_handle)

text \<open>
  C8 (amended). Start from a database without orders and serve any list of requests for
  order creation, status update, manual assignment, reassignment, acceptance and change
  of availability in which no status update asks for \<open>ASSIGNED\<close>. Afterwards every order
  in status \<open>ASSIGNED\<close>, \<open>PICKED_UP\<close>, \<open>IN_TRANSIT\<close> or \<open>DELIVERED\<close> has a courier.
\<close>

theorem courier_present_after_assignment:
  assumes "orders db0 = []" and "\<forall>r \<in> set rs. \<not> asks_assigned r"
  shows "\<forall>x \<in> set (orders (run rs db0)).
           status x \<in> {ASSIGNED, PICKED_UP, IN_TRANSIT, DELIVERED} \<longrightarrow>
           assigned_courier x \<noteq> None"
proof -
  from assms(1) have "couriers_assigned db0"
    by (simp add: couriers_assigned_def)
  then have "couriers_assigned (run rs db0)"
    using assms(2) by (rule couriers_assigned_run)
  then show ?thesis
    by (simp add: couriers_assigned_def)
qed

theorem courier_present_after_assignment_witness:
  "orders shop = [] \<and> list_all (\<lambda>r. \<not> asks_assigned r) day \<and>
   map (\<lambda>x. (status x, assigned_courier x)) (orders (run day shop)) =
     [(ASSIGNED, Some 3), (DELIVERED, Some 3)]"
proof -
  have a: "orders shop = []"
    by (simp add: shop_def)
  have b: "\<forall>r \<in> set day. \<not> asks_assigned r"
    by (simp add: day_def)
  have c: "map (\<lambda>x. (status x, assigned_courier x)) (orders (run day shop)) =
     [(ASSIGNED, Some 3), (DELIVERED, Some 3)]"
    by (simp add: run_day order1_def)
  from courier_present_after_assignment[OF a b] b c show ?thesis
    by (simp add: a list_all_iff)
qed

text \<open>
  The order is created while no courier is available and stays \<open>CREATED\<close> without
  courier; the admin's status update to \<open>ASSIGNED\<close>, an entry of the transition table,
  is accepted and leaves the courier null.
\<close>

theorem courier_present_counterexample:
  "orders idle_shop = [] \<and>
   fst (update_status dave 1 ASSIGNED 11 (run [Req_create alice parcel 10] idle_shop)) =
     Inr (order0\<lparr>status := ASSIGNED, assigned_at := Some 11\<rparr>) \<and>
   map status (orders (run by_hand idle_shop)) = [ASSIGNED] \<and>
   map assigned_courier (orders (run by_hand idle_shop)) = [None] \<and>
   \<not> couriers_assigned (run by_hand idle_shop)"
proof -
  have r: "run by_hand idle_shop =
             idle_shop\<lparr>orders := [order0\<lparr>status := ASSIGNED, assigned_at := Some 11\<rparr>]\<rparr>"
    by (simp add: by_hand_def idle_shop_def order0_def view_defs Let_def)
  have u: "fst (update_status dave 1 ASSIGNED 11 (run [Req_create alice parcel 10] idle_shop)) =
     Inr (order0\<lparr>status := ASSIGNED, assigned_at := Some 11\<rparr>)"
    by (simp add: idle_shop_def order0_def view_defs Let_def)
  have o: "orders idle_shop = []"
    by (simp add: idle_shop_def shop_def)
  from r u o show ?thesis
    by (simp add: couriers_assigned_def order0_def)
qed

end
